theory Spec2Isabelle
  imports Main "HOL-Library.Sublist"
begin

section \<open>Python strings\<close>

text \<open>
  Strings are lists of characters. The file \<^verbatim>\<open>scripts/demo_indexing.py\<close> uses
  \<^verbatim>\<open>str.split\<close>, \<^verbatim>\<open>str.join\<close>, \<^verbatim>\<open>str.lower\<close> and \<^verbatim>\<open>str.startswith\<close>; each is
  written out here the way CPython computes it.
\<close>

text \<open>\<^verbatim>\<open>s.find(sep)\<close>: the index of the leftmost occurrence of \<open>sep\<close> in \<open>s\<close>.\<close>

fun str_find :: "string \<Rightarrow> string \<Rightarrow> nat option" where
  "str_find sep [] = (if sep = [] then Some 0 else None)"
| "str_find sep (c # cs) =
     (if prefix sep (c # cs) then Some 0 else map_option Suc (str_find sep cs))"

lemma str_find_bound:
  "str_find sep s = Some i \<Longrightarrow> i + length sep \<le> length s"
proof (induction s arbitrary: i)
  case Nil
  then show ?case by (simp split: if_splits)
next
  case (Cons c cs)
  show ?case
  proof (cases "prefix sep (c # cs)")
    case True
    with Cons.prems have "i = 0" by simp
    with prefix_length_le [OF True] show ?thesis by simp
  next
    case False
    with Cons.prems obtain j where "str_find sep cs = Some j" "i = Suc j" by auto
    with Cons.IH show ?thesis by fastforce
  qed
qed

text \<open>
  The parts of \<^verbatim>\<open>s.split(sep)\<close> for a non-empty separator: cut at the leftmost
  occurrence, go on behind it.
\<close>

function str_split_parts :: "string \<Rightarrow> string \<Rightarrow> string list" where
  "str_split_parts s sep =
     (if sep = [] then [s]
      else case str_find sep s of
             None \<Rightarrow> [s]
           | Some i \<Rightarrow> take i s # str_split_parts (drop (i + length sep) s) sep)"
  by pat_completeness auto
termination
proof (relation "measure (\<lambda>(s, sep). length s)")
  show "wf (measure (\<lambda>(s, sep). length s))" by simp
next
  fix s sep :: string and i
  assume "sep \<noteq> []" and "str_find sep s = Some i"
  then have "i + length sep \<le> length s" and "0 < length sep"
    by (simp_all add: str_find_bound)
  then have "length s - (i + length sep) < length s"
    by arith
  then show "((drop (i + length sep) s, sep), (s, sep)) \<in> measure (\<lambda>(s, sep). length s)"
    by simp
qed

declare str_split_parts.simps [simp del]

text \<open>\<^verbatim>\<open>sep.join(parts)\<close>.\<close>

fun str_join :: "string \<Rightarrow> string list \<Rightarrow> string" where
  "str_join sep [] = []"
| "str_join sep [x] = x"
| "str_join sep (x # y # ys) = x @ sep @ str_join sep (y # ys)"

section \<open>Errors\<close>

text \<open>
  The function \<^verbatim>\<open>error(message, edit_fixit)\<close> prints a report on stderr, tries to annotate
  the build and always ends in \<^verbatim>\<open>sys.exit(1)\<close>. The wording of a message is kept as the
  values it is formatted from.
\<close>

datatype message =
    SeparatorCount string nat string
  | ContentDiffers string string string string

datatype py_error =
    ValueError
  | AssertionError
  | UnboundLocalError
  | AttributeError
  | KeyError
  | IndexError
  | FileNotFoundError
  | SystemExit nat message bool

definition error :: "message \<Rightarrow> bool \<Rightarrow> py_error" where
  "error msg edit_fixit = SystemExit 1 msg edit_fixit"

text \<open>\<^verbatim>\<open>s.split(sep)\<close> raises \<^verbatim>\<open>ValueError\<close> on the empty separator.\<close>

definition str_split :: "string \<Rightarrow> string \<Rightarrow> py_error + string list" where
  "str_split s sep = (if sep = [] then Inl ValueError else Inr (str_split_parts s sep))"

section \<open>Files\<close>

text \<open>
  The file system maps the names of the existing files to the characters they store. The file
  is opened by \<^verbatim>\<open>open(file_name, "r+")\<close>, that is in text mode with the default
  \<^verbatim>\<open>newline=None\<close>: reading translates every line ending \<^verbatim>\<open>\r\n\<close> and every lone
  \<^verbatim>\<open>\r\<close> into \<^verbatim>\<open>\n\<close> (universal newlines), and writing translates \<^verbatim>\<open>\n\<close> into
  \<^verbatim>\<open>os.linesep\<close>, which is \<^verbatim>\<open>\n\<close> itself on the POSIX platform taken here (as for
  \<^verbatim>\<open>os.path\<close> below). One stored character is one byte of the file; a file that the
  locale's encoding cannot decode is outside the model.
\<close>

definition CR :: char where
  "CR = CHR 0x0D"

definition LF :: char where
  "LF = CHR 0x0A"

fun translate_newlines :: "string \<Rightarrow> string" where
  "translate_newlines [] = []"
| "translate_newlines [c] = [if c = CR then LF else c]"
| "translate_newlines (c # d # rest) =
     (if c = CR
      then (if d = LF then LF # translate_newlines rest
            else LF # translate_newlines (d # rest))
      else c # translate_newlines (d # rest))"

text \<open>
  A file opened in mode \<^verbatim>\<open>r+\<close> is the stored characters and a position. \<^verbatim>\<open>read()\<close>
  returns the rest of the file with its line endings translated. Writing replaces the
  characters from the position on and extends the file where it is too short (a position
  behind the end is padded with NUL first); \<^verbatim>\<open>truncate()\<close> cuts the file at the position.
\<close>

record file_obj =
  buffer :: string
  position :: nat

definition f_read :: "file_obj \<Rightarrow> string \<times> file_obj" where
  "f_read f = (translate_newlines (drop (position f) (buffer f)),
               f\<lparr>position := max (position f) (length (buffer f))\<rparr>)"

definition f_seek :: "file_obj \<Rightarrow> nat \<Rightarrow> file_obj" where
  "f_seek f n = f\<lparr>position := n\<rparr>"

definition f_write :: "file_obj \<Rightarrow> string \<Rightarrow> file_obj" where
  "f_write f data =
     f\<lparr>buffer := take (position f) (buffer f)
                    @ replicate (position f - length (buffer f)) (CHR 0x00)
                    @ data
                    @ drop (position f + length data) (buffer f),
       position := position f + length data\<rparr>"

definition f_truncate :: "file_obj \<Rightarrow> file_obj" where
  "f_truncate f = f\<lparr>buffer := take (position f) (buffer f)\<rparr>"

type_synonym filesystem = "string \<rightharpoonup> string"

section \<open>The region patcher\<close>

text \<open>
  \<^verbatim>\<open>separate_compare_overwrite(file_name, separator, action, new_middle, label)\<close>
  returns nothing; its result here is the exception it ends with, if any, and the file
  system it leaves. Every error is raised before the first write. The unified diff that the
  compare branch prints before it fails is kept as the two texts it is computed from, inside
  the message.
\<close>

definition separate_compare_overwrite ::
  "string \<Rightarrow> string \<Rightarrow> string \<Rightarrow> string \<Rightarrow> string \<Rightarrow> filesystem
    \<Rightarrow> (py_error + unit) \<times> filesystem" where
  "separate_compare_overwrite file_name separator action new_middle label fs =
     (case fs file_name of
        None \<Rightarrow> (Inl FileNotFoundError, fs)
      | Some text \<Rightarrow>
          let (file_contents, f) = f_read \<lparr>buffer = text, position = 0\<rparr> in
          (case str_split file_contents separator of
             Inl e \<Rightarrow> (Inl e, fs)
           | Inr parts \<Rightarrow>
               if length parts \<noteq> 3
               then (Inl (error (SeparatorCount file_name (length parts - 1) separator) False), fs)
               else
                 let pre = parts ! 0; current_middle = parts ! 1; suf = parts ! 2 in
                 if action = ''compare'' \<and> new_middle \<noteq> current_middle
                 then (Inl (error (ContentDiffers file_name label current_middle new_middle) True), fs)
                 else if action = ''overwrite''
                 then
                   let f = f_seek f 0;
                       f = f_write f (str_join [] [pre, separator, new_middle, separator, suf]);
                       f = f_truncate f
                   in (Inr (), fs(file_name \<mapsto> buffer f))
                 else (Inr (), fs)))"

section \<open>Constants\<close>

text \<open>
  \<^verbatim>\<open>AUTOGENERATED_PROMPT\<close> is formatted from \<^verbatim>\<open>__file__\<close>, the path the script was started
  under; that path is the parameter \<open>script\<close>.
\<close>

definition LINK_DEFAULT_TEXT :: string where
  "LINK_DEFAULT_TEXT = ''demo''"

definition TRUE_TEXT :: string where
  "TRUE_TEXT = ''yes''"

definition AUTOGENERATED_PROMPT :: "string \<Rightarrow> string" where
  "AUTOGENERATED_PROMPT script =
     ''autogenerated by '' @ script @ '', edit that file instead of this location''"

section \<open>Text nodes and cells\<close>

datatype LinkKind = index | notebook

text \<open>
  The attribute \<^verbatim>\<open>kind\<close> holds whatever the constructor was given: a member of
  \<^verbatim>\<open>LinkKind\<close>, or any other object (kept as its \<^verbatim>\<open>repr\<close>).
\<close>

datatype kind_value = Member LinkKind | NonMember string

record T =
  "text" :: string
  link :: "string option"
  details :: "string option"
  kind :: kind_value

text \<open>
  \<^verbatim>\<open>T.__init__(text=None, link=None, details=None, kind=LinkKind.notebook)\<close>; the default
  of \<^verbatim>\<open>kind\<close> is written out at the calls.
\<close>

definition T_init ::
  "string option \<Rightarrow> string option \<Rightarrow> string option \<Rightarrow> kind_value \<Rightarrow> py_error + T" where
  "T_init text_arg link_arg details_arg kind_arg =
     (if text_arg = None \<and> link_arg = None then Inl ValueError
      else
        let text_arg = (case text_arg of None \<Rightarrow> LINK_DEFAULT_TEXT | Some s \<Rightarrow> s) in
        (case kind_arg of
           NonMember r \<Rightarrow> Inl AssertionError
         | Member k \<Rightarrow>
             Inr \<lparr>text = text_arg, link = link_arg, details = details_arg, kind = kind_arg\<rparr>))"

text \<open>
  What a cell of a record is declared with, and what it holds: nothing, a boolean, a string,
  a list of such values, or a text node.
\<close>

datatype cell = PyNone | PyBool bool | PyStr string | PyList "cell list" | PyT T

text \<open>Truth value of an object: \<^verbatim>\<open>T\<close> defines neither \<^verbatim>\<open>__bool__\<close> nor \<^verbatim>\<open>__len__\<close>.\<close>

fun truthy :: "cell \<Rightarrow> bool" where
  "truthy PyNone = False"
| "truthy (PyBool b) = b"
| "truthy (PyStr s) = (s \<noteq> [])"
| "truthy (PyList xs) = (xs \<noteq> [])"
| "truthy (PyT t) = True"

text \<open>Collecting the results of a comprehension whose element expression may raise.\<close>

fun collect :: "(py_error + 'a) list \<Rightarrow> py_error + 'a list" where
  "collect [] = Inr []"
| "collect (Inl e # rs) = Inl e"
| "collect (Inr x # rs) = (case collect rs of Inl e \<Rightarrow> Inl e | Inr xs \<Rightarrow> Inr (x # xs))"

text \<open>
  \<^verbatim>\<open>T.textify(inp)\<close>, one equation for each type of input; every equation follows the
  chain of the source: not \<open>inp\<close>, \<open>inp\<close> is \<^verbatim>\<open>True\<close>, a list, a \<^verbatim>\<open>T\<close>, and \<^verbatim>\<open>T(inp)\<close> for
  what is left, which is a non-empty string.
\<close>

fun textify :: "cell \<Rightarrow> py_error + cell" where
  "textify PyNone = Inr PyNone"
| "textify (PyBool b) =
     (if \<not> truthy (PyBool b) then Inr PyNone
      else map_sum id PyT (T_init (Some TRUE_TEXT) None None (Member notebook)))"
| "textify (PyList xs) =
     (if \<not> truthy (PyList xs) then Inr PyNone
      else map_sum id PyList (collect (map textify xs)))"
| "textify (PyT t) = Inr (PyT t)"
| "textify (PyStr s) =
     (if \<not> truthy (PyStr s) then Inr PyNone
      else map_sum id PyT (T_init (Some s) None None (Member notebook)))"

section \<open>Formats\<close>

text \<open>A format is an object of one of the two classes, made from a file name and a separator.\<close>

datatype Format = Rst string string | Html string string

fun index_suffix :: "Format \<Rightarrow> bool \<Rightarrow> string" where
  "index_suffix (Html f s) checking = ''/README.md''"
| "index_suffix (Rst f s) checking = (if checking then ''/index.rst'' else ''/index'')"

fun notebook_suffix :: "Format \<Rightarrow> bool \<Rightarrow> string" where
  "notebook_suffix (Html f s) checking = ''.ipynb''"
| "notebook_suffix (Rst f s) checking = (if checking then ''.nblink'' else [])"

text \<open>
  \<^verbatim>\<open>Format.link(self, t, checking=False)\<close>. With a kind that is neither member of
  \<^verbatim>\<open>LinkKind\<close> no branch assigns \<^verbatim>\<open>suffix\<close>, and the \<^verbatim>\<open>return\<close> raises
  \<^verbatim>\<open>UnboundLocalError\<close>.
\<close>

definition Format_link :: "Format \<Rightarrow> T \<Rightarrow> bool \<Rightarrow> py_error + string option" where
  "Format_link self t checking =
     (case link t of
        None \<Rightarrow> Inr None
      | Some l \<Rightarrow>
          (case kind t of
             Member index \<Rightarrow> Inr (Some (l @ index_suffix self checking))
           | Member notebook \<Rightarrow> Inr (Some (l @ notebook_suffix self checking))
           | NonMember r \<Rightarrow> Inl UnboundLocalError))"

section \<open>The builder of the hypertext format\<close>

definition and_then :: "py_error + 'a \<Rightarrow> ('a \<Rightarrow> py_error + 'b) \<Rightarrow> py_error + 'b" where
  "and_then r f = (case r of Inl e \<Rightarrow> Inl e | Inr x \<Rightarrow> f x)"

text \<open>A \<^verbatim>\<open>for\<close> loop whose body updates a state and may raise.\<close>

fun for_each :: "'a list \<Rightarrow> ('a \<Rightarrow> 's \<Rightarrow> py_error + 's) \<Rightarrow> 's \<Rightarrow> py_error + 's" where
  "for_each [] body s = Inr s"
| "for_each (x # xs) body s = and_then (body x s) (for_each xs body)"

record HtmlBuilder =
  html :: "string list"
  indent_amount :: "int option"
  indent_level :: int
  add_count :: nat

definition HtmlBuilder_init :: "int option \<Rightarrow> HtmlBuilder" where
  "HtmlBuilder_init indent =
     \<lparr>html = [], indent_amount = indent, indent_level = 0, add_count = 0\<rparr>"

text \<open>\<^verbatim>\<open>self.html[-1] += data\<close> raises \<^verbatim>\<open>IndexError\<close> on the empty list.\<close>

definition add :: "HtmlBuilder \<Rightarrow> string \<Rightarrow> bool \<Rightarrow> py_error + HtmlBuilder" where
  "add self data one_line =
     (let self = self\<lparr>add_count := add_count self + 1\<rparr> in
      if one_line then
        (if html self = [] then Inl IndexError
         else Inr (self\<lparr>html := butlast (html self) @ [last (html self) @ data]\<rparr>))
      else
        let data =
          (case indent_amount self of
             None \<Rightarrow> data
           | Some n \<Rightarrow>
               if n \<noteq> 0 then replicate (nat (n * indent_level self)) (CHR '' '') @ data
               else data)
        in Inr (self\<lparr>html := html self @ [data]\<rparr>))"

text \<open>
  The context manager \<^verbatim>\<open>element(name, attrs={}, only_with_attrs=False)\<close> takes the body of its
  \<^verbatim>\<open>with\<close> block as a function on the builder. When the body raises, the exception leaves
  the \<^verbatim>\<open>with\<close> block and the builder is not looked at again.
\<close>

definition element ::
  "HtmlBuilder \<Rightarrow> string \<Rightarrow> (string \<times> string) list \<Rightarrow> bool
    \<Rightarrow> (HtmlBuilder \<Rightarrow> py_error + HtmlBuilder) \<Rightarrow> py_error + HtmlBuilder" where
  "element self name attrs only_with_attrs body =
     (if only_with_attrs \<and> attrs = [] then body self
      else
        let attrs_str =
              str_join '' '' (map (\<lambda>(name, v). name @ ''='' @ [CHR 0x27] @ v @ [CHR 0x27]) attrs);
            attrs_str = (if attrs_str \<noteq> [] then '' '' @ attrs_str else attrs_str)
        in
        and_then (add self (''<'' @ name @ attrs_str @ ''>'') False) (\<lambda>self.
          let self = self\<lparr>indent_level := indent_level self + 1\<rparr>;
              initial_len = length (html self)
          in
          and_then (body self) (\<lambda>self.
            let self = self\<lparr>indent_level := indent_level self - 1\<rparr> in
            add self (''</'' @ name @ ''>'') (length (html self) = initial_len))))"

definition string :: "HtmlBuilder \<Rightarrow> string" where
  "string self =
     (let sep = (if indent_amount self = None then [] else ''\<newline>'') in str_join sep (html self))"

section \<open>Records\<close>

text \<open>
  A record holds its cells in a dictionary keyed by the heading objects, in the order of
  insertion. \<^verbatim>\<open>T\<close> defines neither \<^verbatim>\<open>__eq__\<close> nor \<^verbatim>\<open>__hash__\<close>, so Python finds a key by
  the identity of the object; the headings of the catalogue are module-level objects with
  pairwise different fields, and the model finds a key by its fields.
\<close>

record Algorithm =
  columns :: "(T \<times> cell) list"

definition dict_get :: "('k \<times> 'v) list \<Rightarrow> 'k \<Rightarrow> py_error + 'v" where
  "dict_get d k = (case map_of d k of None \<Rightarrow> Inl KeyError | Some v \<Rightarrow> Inr v)"

section \<open>Rendering: hypertext\<close>

definition Html_render_t :: "Format \<Rightarrow> T \<Rightarrow> py_error + string" where
  "Html_render_t self t =
     (let builder = HtmlBuilder_init None;
          title_attr = (case details t of
                          None \<Rightarrow> []
                        | Some d \<Rightarrow> if d \<noteq> [] then [(''title'', d)] else [])
      in
      and_then (Format_link self t False) (\<lambda>link.
        let href_attr = (case link of
                           None \<Rightarrow> []
                         | Some l \<Rightarrow> if l \<noteq> [] then [(''href'', l)] else [])
        in
        and_then
          (element builder ''span'' title_attr True (\<lambda>builder.
             element builder ''a'' href_attr True (\<lambda>builder.
               add builder (text t) False)))
          (\<lambda>builder. Inr (string builder))))"

text \<open>
  \<^verbatim>\<open>Html._render_cell(self, html, cell, one_line=True)\<close>; the parameter \<^verbatim>\<open>html\<close> is
  \<open>builder\<close> here. A cell that is neither empty, a list nor a \<^verbatim>\<open>T\<close> has no attribute
  \<^verbatim>\<open>details\<close>.
\<close>

fun Html_render_cell :: "Format \<Rightarrow> HtmlBuilder \<Rightarrow> cell \<Rightarrow> bool \<Rightarrow> py_error + HtmlBuilder"
  and Html_render_cells :: "Format \<Rightarrow> HtmlBuilder \<Rightarrow> cell list \<Rightarrow> py_error + HtmlBuilder" where
  "Html_render_cell self builder PyNone one_line = Inr builder"
| "Html_render_cell self builder (PyList contents) one_line =
     (if \<not> truthy (PyList contents) then Inr builder
      else Html_render_cells self builder contents)"
| "Html_render_cell self builder (PyT t) one_line =
     and_then (Html_render_t self t) (\<lambda>s. add builder s one_line)"
| "Html_render_cell self builder (PyBool b) one_line =
     (if \<not> truthy (PyBool b) then Inr builder else Inl AttributeError)"
| "Html_render_cell self builder (PyStr s) one_line =
     (if \<not> truthy (PyStr s) then Inr builder else Inl AttributeError)"
| "Html_render_cells self builder [] = Inr builder"
| "Html_render_cells self builder (contents # rest) =
     and_then (Html_render_cell self builder contents False) (\<lambda>builder.
       Html_render_cells self builder rest)"

definition Html_render :: "Format \<Rightarrow> string \<Rightarrow> T list \<Rightarrow> Algorithm list \<Rightarrow> py_error + string" where
  "Html_render self script headings algorithms =
     (let builder = HtmlBuilder_init (Some 2) in
      and_then (add builder (''<!-- '' @ AUTOGENERATED_PROMPT script @ '' -->'') False) (\<lambda>builder.
      and_then
        (element builder ''table'' [] False (\<lambda>builder.
           and_then
             (element builder ''tr'' [] False
                (for_each headings (\<lambda>heading builder.
                   element builder ''th'' [] False (\<lambda>builder.
                     and_then (Html_render_t self heading) (\<lambda>s. add builder s True)))))
             (for_each algorithms (\<lambda>algorithm builder.
                element builder ''tr'' [] False
                  (for_each headings (\<lambda>heading builder.
                     element builder ''td'' [] False (\<lambda>builder.
                       and_then (dict_get (columns algorithm) heading) (\<lambda>cell.
                         Html_render_cell self builder cell True))))))))
        (\<lambda>builder. Inr (string builder))))"

section \<open>Rendering: structured text\<close>

definition Rst_render_t :: "Format \<Rightarrow> T \<Rightarrow> py_error + string" where
  "Rst_render_t self t =
     and_then (Format_link self t False) (\<lambda>link.
       let shown = (case details t of
                      None \<Rightarrow> text t
                    | Some d \<Rightarrow> if d \<noteq> [] then d else text t)
       in
       (case link of
          None \<Rightarrow> Inr shown
        | Some l \<Rightarrow>
            if l \<noteq> [] then Inr ('':any:'' @ [CHR 0x60] @ shown @ '' <'' @ l @ ''>'' @ [CHR 0x60])
            else Inr shown))"

fun Rst_render_cell :: "Format \<Rightarrow> cell \<Rightarrow> py_error + string" where
  "Rst_render_cell self PyNone = Inr []"
| "Rst_render_cell self (PyList contents) =
     (if \<not> truthy (PyList contents) then Inr []
      else map_sum id (str_join '', '') (collect (map (Rst_render_cell self) contents)))"
| "Rst_render_cell self (PyT t) = Rst_render_t self t"
| "Rst_render_cell self (PyBool b) =
     (if \<not> truthy (PyBool b) then Inr [] else Inl AttributeError)"
| "Rst_render_cell self (PyStr s) =
     (if \<not> truthy (PyStr s) then Inr [] else Inl AttributeError)"

definition Rst_render :: "Format \<Rightarrow> T list \<Rightarrow> Algorithm list \<Rightarrow> py_error + string" where
  "Rst_render self headings algorithms =
     (let result = [''.. list-table::'', ''   :header-rows: 1'', []];
          new_row = ''   *'';
          new_item = ''     -'';
          result = result @ [new_row]
      in
      and_then
        (for_each headings (\<lambda>heading result.
           and_then (Rst_render_t self heading) (\<lambda>rst.
             Inr (result @ [new_item @ '' '' @ rst]))) result)
        (\<lambda>result.
      and_then
        (for_each algorithms (\<lambda>algorithm result.
           for_each headings (\<lambda>heading result.
             and_then (dict_get (columns algorithm) heading) (\<lambda>cell.
             and_then (Rst_render_cell self cell) (\<lambda>rst.
               if rst \<noteq> [] then Inr (result @ [new_item @ '' '' @ rst])
               else Inr (result @ [new_item])))) (result @ [new_row])) result)
        (\<lambda>result. Inr (str_join ''\<newline>'' result))))"

text \<open>\<^verbatim>\<open>file_fmt.render(headings, algorithms)\<close>, by the class of the format.\<close>

fun render :: "Format \<Rightarrow> string \<Rightarrow> T list \<Rightarrow> Algorithm list \<Rightarrow> py_error + string" where
  "render (Html f s) script headings algorithms = Html_render (Html f s) script headings algorithms"
| "render (Rst f s) script headings algorithms = Rst_render (Rst f s) headings algorithms"

section \<open>The link extractor\<close>

text \<open>
  \<^verbatim>\<open>find_links\<close> is called on the list of headings, on the list of records, and from there
  on records, cells and lists of cells.
\<close>

datatype element = Cell cell | AlgorithmObj Algorithm | ListOf "element list"

text \<open>
  \<^verbatim>\<open>find_links\<close> is a generator: what it has yielded, and the exception that ended it, if
  one did. \<open>yield_from\<close> runs one generator after the other and stops at the first that raises.
\<close>

type_synonym links = "(string option \<times> string) list \<times> py_error option"

fun yield_from :: "links list \<Rightarrow> links" where
  "yield_from [] = ([], None)"
| "yield_from ((ys, Some e) # rest) = (ys, Some e)"
| "yield_from ((ys, None) # rest) = (case yield_from rest of (zs, r) \<Rightarrow> (ys @ zs, r))"

fun find_links_cell :: "cell \<Rightarrow> Format \<Rightarrow> links" where
  "find_links_cell PyNone fmt = ([], None)"
| "find_links_cell (PyT t) fmt =
     (case Format_link fmt t True of
        Inl e \<Rightarrow> ([], Some e)
      | Inr None \<Rightarrow> ([], None)
      | Inr (Some rendered_link) \<Rightarrow>
          if rendered_link \<noteq> [] then ([(link t, rendered_link)], None) else ([], None))"
| "find_links_cell (PyList subs) fmt = yield_from (map (\<lambda>sub. find_links_cell sub fmt) subs)"
| "find_links_cell (PyBool b) fmt = ([], Some ValueError)"
| "find_links_cell (PyStr s) fmt = ([], Some ValueError)"

fun find_links :: "element \<Rightarrow> Format \<Rightarrow> links" where
  "find_links (Cell c) fmt = find_links_cell c fmt"
| "find_links (ListOf subs) fmt = yield_from (map (\<lambda>sub. find_links sub fmt) subs)"
| "find_links (AlgorithmObj a) fmt =
     yield_from (map (\<lambda>sub. find_links_cell sub fmt) (map snd (columns a)))"

section \<open>The link validator\<close>

text \<open>
  \<^verbatim>\<open>os.path\<close> of a POSIX system. What exists in the file system is the parameter
  \<open>exists\<close>. \<^verbatim>\<open>str.lower\<close> is written for ASCII; no character outside ASCII is turned into
  one of the letters of \<^verbatim>\<open>http\<close>.
\<close>

definition os_path_isabs :: "string \<Rightarrow> bool" where
  "os_path_isabs s = prefix ''/'' s"

definition os_path_join :: "string \<Rightarrow> string \<Rightarrow> string" where
  "os_path_join a p =
     (if prefix ''/'' p then p
      else if a = [] \<or> suffix ''/'' a then a @ p
      else a @ ''/'' @ p)"

definition char_lower :: "char \<Rightarrow> char" where
  "char_lower c =
     (let n = of_char c :: nat in if 65 \<le> n \<and> n \<le> 90 then char_of (n + 32) else c)"

definition str_lower :: "string \<Rightarrow> string" where
  "str_lower s = map char_lower s"

definition str_startswith :: "string \<Rightarrow> string \<Rightarrow> bool" where
  "str_startswith s p = prefix p s"

definition link_is_valid_relative :: "(string \<Rightarrow> bool) \<Rightarrow> string option \<Rightarrow> string \<Rightarrow> bool" where
  "link_is_valid_relative exists link_arg base_dir =
     (case link_arg of
        None \<Rightarrow> True
      | Some l \<Rightarrow>
          if os_path_isabs l then False
          else if str_startswith (str_lower l) ''http'' then False
          else exists (os_path_join base_dir l))"

section \<open>The catalogue\<close>

definition ALGORITHM :: T where
  "ALGORITHM = \<lparr>text = ''Algorithm'', link = None, details = None, kind = Member notebook\<rparr>"

definition HETEROGENEOUS :: T where
  "HETEROGENEOUS =
     \<lparr>text = ''Heter.'', link = None, details = Some ''Heterogeneous'', kind = Member notebook\<rparr>"

definition DIRECTED :: T where
  "DIRECTED = \<lparr>text = ''Dir.'', link = None, details = Some ''Directed'', kind = Member notebook\<rparr>"

definition WEIGHTED :: T where
  "WEIGHTED = \<lparr>text = ''EW'', link = None, details = Some ''Edge weights'', kind = Member notebook\<rparr>"

definition TEMPORAL :: T where
  "TEMPORAL =
     \<lparr>text = ''T'', link = None, details = Some ''Time-varying, temporal'', kind = Member notebook\<rparr>"

definition FEATURES :: T where
  "FEATURES = \<lparr>text = ''NF'', link = None, details = Some ''Node features'', kind = Member notebook\<rparr>"

definition NC :: T where
  "NC = \<lparr>text = ''NC'', link = Some ''node-classification'',
          details = Some ''Node classification'', kind = Member index\<rparr>"

definition LP :: T where
  "LP = \<lparr>text = ''LP'', link = Some ''link-prediction'',
          details = Some ''Link prediction'', kind = Member index\<rparr>"

definition RL :: T where
  "RL = \<lparr>text = ''Unsup.'', link = Some ''embeddings'',
          details = Some ''Unsupervised'', kind = Member index\<rparr>"

definition INDUCTIVE :: T where
  "INDUCTIVE = \<lparr>text = ''Ind.'', link = None, details = Some ''Inductive'', kind = Member notebook\<rparr>"

definition GC :: T where
  "GC = \<lparr>text = ''GC'', link = Some ''graph-classification'',
          details = Some ''Graph classification'', kind = Member index\<rparr>"

definition COLUMNS :: "T list" where
  "COLUMNS = [ALGORITHM, HETEROGENEOUS, DIRECTED, WEIGHTED, TEMPORAL, FEATURES,
              NC, LP, RL, INDUCTIVE, GC]"

text \<open>
  \<^verbatim>\<open>Algorithm.__init__\<close>: the twelve arguments in the order of the signature (each keyword
  defaults to \<^verbatim>\<open>None\<close>). The argument \<^verbatim>\<open>interpretability_nc\<close> is accepted and not stored.
\<close>

definition Algorithm_init ::
  "cell \<Rightarrow> cell \<Rightarrow> cell \<Rightarrow> cell \<Rightarrow> cell \<Rightarrow> cell \<Rightarrow> cell \<Rightarrow> cell \<Rightarrow> cell \<Rightarrow> cell \<Rightarrow> cell \<Rightarrow> cell
    \<Rightarrow> py_error + Algorithm" where
  "Algorithm_init algorithm heterogeneous directed weighted temporal features nc
       interpretability_nc lp rl inductive gc =
     (let columns_arg =
            [(ALGORITHM, algorithm), (HETEROGENEOUS, heterogeneous), (DIRECTED, directed),
             (WEIGHTED, weighted), (TEMPORAL, temporal), (FEATURES, features), (NC, nc),
             (LP, lp), (RL, rl), (INDUCTIVE, inductive), (GC, gc)]
      in
      map_sum id (\<lambda>cs. \<lparr>columns = cs\<rparr>)
        (collect (map (\<lambda>(name, v). map_sum id (Pair name) (textify v)) columns_arg)))"

text \<open>The two entries of \<^verbatim>\<open>FILES\<close>.\<close>

definition FILES :: "Format list" where
  "FILES = [Rst ''docs/demos/index.rst'' ''\<newline>..\<newline>   DEMO TABLE MARKER\<newline>'',
            Html ''demos/README.md'' ''\<newline><!-- DEMO TABLE MARKER -->\<newline>'']"

section \<open>The specification's wording\<close>

text \<open>
  The link validator as the specification words it: a link is remote when it begins,
  whatever the case of its letters, with the scheme marker \<^verbatim>\<open>http://\<close> or \<^verbatim>\<open>https://\<close>.
\<close>

definition spec_link_is_valid :: "(string \<Rightarrow> bool) \<Rightarrow> string option \<Rightarrow> string \<Rightarrow> bool" where
  "spec_link_is_valid exists link_arg base_dir =
     (case link_arg of
        None \<Rightarrow> True
      | Some l \<Rightarrow>
          if os_path_isabs l then False
          else if prefix ''http://'' (str_lower l) \<or> prefix ''https://'' (str_lower l) then False
          else exists (os_path_join base_dir l))"

text \<open>
  The link extractor as the specification words it; \<open>None\<close> is the contract violation. The
  suffix of a link is the checking one, by the kind of the node.
\<close>

fun checking_suffix :: "Format \<Rightarrow> kind_value \<Rightarrow> string" where
  "checking_suffix fmt (Member index) = index_suffix fmt True"
| "checking_suffix fmt (Member notebook) = notebook_suffix fmt True"
| "checking_suffix fmt (NonMember r) = []"

fun spec_links_cell :: "cell \<Rightarrow> Format \<Rightarrow> (string option \<times> string) list option" where
  "spec_links_cell PyNone fmt = Some []"
| "spec_links_cell (PyT t) fmt =
     Some (case link t of None \<Rightarrow> [] | Some l \<Rightarrow> [(Some l, l @ checking_suffix fmt (kind t))])"
| "spec_links_cell (PyList xs) fmt =
     map_option concat (those (map (\<lambda>x. spec_links_cell x fmt) xs))"
| "spec_links_cell (PyBool b) fmt = None"
| "spec_links_cell (PyStr s) fmt = None"

fun spec_links :: "element \<Rightarrow> Format \<Rightarrow> (string option \<times> string) list option" where
  "spec_links (Cell c) fmt = spec_links_cell c fmt"
| "spec_links (ListOf es) fmt = map_option concat (those (map (\<lambda>e. spec_links e fmt) es))"
| "spec_links (AlgorithmObj a) fmt =
     map_option concat (those (map (\<lambda>c. spec_links_cell c fmt) (map snd (columns a))))"

text \<open>Every text node of a tree has a member of \<^verbatim>\<open>LinkKind\<close> as its kind.\<close>

definition kind_ok :: "T \<Rightarrow> bool" where
  "kind_ok t = (case kind t of Member k \<Rightarrow> True | NonMember r \<Rightarrow> False)"

fun kinds_ok_cell :: "cell \<Rightarrow> bool" where
  "kinds_ok_cell (PyT t) = kind_ok t"
| "kinds_ok_cell (PyList xs) = list_all kinds_ok_cell xs"
| "kinds_ok_cell c = True"

fun kinds_ok :: "element \<Rightarrow> bool" where
  "kinds_ok (Cell c) = kinds_ok_cell c"
| "kinds_ok (ListOf es) = list_all kinds_ok es"
| "kinds_ok (AlgorithmObj a) = list_all kinds_ok_cell (map snd (columns a))"

text \<open>A run of the generator follows the rule: the same pairs, or the violation.\<close>

definition follows :: "links \<Rightarrow> (string option \<times> string) list option \<Rightarrow> bool" where
  "follows r sp =
     (case sp of Some ps \<Rightarrow> r = (ps, None) | None \<Rightarrow> (\<exists>ps. r = (ps, Some ValueError)))"

text \<open>
  The places at which a separator occurs in a text: every index at which the text goes on
  with the separator, whether or not two of the occurrences share characters.
\<close>

definition occurrences :: "string \<Rightarrow> string \<Rightarrow> nat list" where
  "occurrences s sep = filter (\<lambda>i. prefix sep (drop i s)) [0..<Suc (length s)]"

text \<open>
  The builder holds the line \<open>m\<close> first and at least one line more, and joins its lines with
  newlines.
\<close>

definition first_line_is :: "string \<Rightarrow> HtmlBuilder \<Rightarrow> bool" where
  "first_line_is m b = ((\<exists>rest. html b = m # rest \<and> rest \<noteq> []) \<and> indent_amount b \<noteq> None)"

text \<open>The lines of a structured-text table begin with the directive and one line more.\<close>

definition begins_list_table :: "string list \<Rightarrow> bool" where
  "begins_list_table r = (\<exists>x rest. r = ''.. list-table::'' # x # rest)"

section \<open>Example inputs\<close>

definition fs_one_separator :: filesystem where
  "fs_one_separator = Map.empty(''README.md'' \<mapsto> ''a--b'')"




text \<open>
  Two texts for \<^verbatim>\<open>demos/README.md\<close>, with the separator of that file in \<^verbatim>\<open>FILES\<close>: one
  with three marker lines, the last two on adjacent lines, and one with two marker lines on
  adjacent lines (an empty table region).
\<close>

definition README_SEPARATOR :: string where
  "README_SEPARATOR = ''\<newline><!-- DEMO TABLE MARKER -->\<newline>''"

definition three_markers_text :: string where
  "three_markers_text =
     ''intro\<newline><!-- DEMO TABLE MARKER -->\<newline>table\<newline><!-- DEMO TABLE MARKER -->\<newline><!-- DEMO TABLE MARKER -->\<newline>tail''"

definition adjacent_markers_text :: string where
  "adjacent_markers_text =
     ''intro\<newline><!-- DEMO TABLE MARKER -->\<newline><!-- DEMO TABLE MARKER -->\<newline>tail''"

definition fs_three_markers :: filesystem where
  "fs_three_markers = Map.empty(''demos/README.md'' \<mapsto> three_markers_text)"

definition fs_adjacent_markers :: filesystem where
  "fs_adjacent_markers = Map.empty(''demos/README.md'' \<mapsto> adjacent_markers_text)"

text \<open>A file system in which one relative path whose name begins with \<^verbatim>\<open>http\<close> exists.\<close>

definition notes_exist :: "string \<Rightarrow> bool" where
  "notes_exist p = (p = ''docs/demos/http-notes/index.rst'')"

definition readme_exists :: "string \<Rightarrow> bool" where
  "readme_exists p = (p = ''demos/node-classification/README.md'')"

text \<open>A record with the cells of the first entry of \<^verbatim>\<open>ALGORITHMS\<close> that carry links.\<close>

definition gcn_record :: Algorithm where
  "gcn_record =
     \<lparr>columns =
        [(ALGORITHM, PyT \<lparr>text = ''GCN'', link = None,
                          details = Some ''Graph Convolutional Network (GCN)'',
                          kind = Member notebook\<rparr>),
         (HETEROGENEOUS, PyNone),
         (NC, PyT \<lparr>text = ''demo'', link = Some ''node-classification/gcn-node-classification'',
                   details = None, kind = Member notebook\<rparr>),
         (RL, PyList [PyT \<lparr>text = ''US'', link = None, details = Some ''UnsupervisedSampler'',
                            kind = Member notebook\<rparr>,
                      PyT \<lparr>text = ''DGI'', link = Some ''embeddings/deep-graph-infomax-embeddings'',
                            details = Some ''DeepGraphInfomax'', kind = Member notebook\<rparr>])]\<rparr>"

definition gcn_tree :: element where
  "gcn_tree = ListOf [AlgorithmObj gcn_record, Cell (PyT GC)]"

definition broken_tree :: element where
  "broken_tree = ListOf [Cell (PyT NC), Cell (PyStr ''see RGCN''), Cell (PyT GC)]"

text \<open>The catalogue of the end-to-end scenario: one heading, one record.\<close>

definition one_record :: Algorithm where
  "one_record =
     \<lparr>columns = [(ALGORITHM, PyT \<lparr>text = ''GCN'', link = None, details = None,
                                  kind = Member notebook\<rparr>)]\<rparr>"

text \<open>
  The structured-text file of \<^verbatim>\<open>FILES\<close> with its separator, a catalogue of one heading
  whose text ends in the two marker lines, the table rendered from it, and the file after one
  and after two runs in overwrite mode.
\<close>

definition INDEX_SEPARATOR :: string where
  "INDEX_SEPARATOR = ''\<newline>..\<newline>   DEMO TABLE MARKER\<newline>''"

definition fs_index :: filesystem where
  "fs_index = Map.empty(''docs/demos/index.rst'' \<mapsto> ''Demos'' @ INDEX_SEPARATOR @ ''old'' @ INDEX_SEPARATOR @ ''End'')"

definition marker_heading :: T where
  "marker_heading = \<lparr>text = ''Notes\<newline>..\<newline>   DEMO TABLE MARKER'', link = None, details = None,
                       kind = Member notebook\<rparr>"

definition marker_table_head :: string where
  "marker_table_head = ''.. list-table::\<newline>   :header-rows: 1\<newline>\<newline>   *\<newline>     - Notes''"

definition marker_table :: string where
  "marker_table = marker_table_head @ ''\<newline>..\<newline>   DEMO TABLE MARKER''"

definition fs_index_once :: filesystem where
  "fs_index_once =
     fs_index(''docs/demos/index.rst'' \<mapsto>
       ''Demos'' @ INDEX_SEPARATOR @ marker_table @ INDEX_SEPARATOR @ ''End'')"

definition fs_index_twice :: filesystem where
  "fs_index_twice =
     fs_index_once(''docs/demos/index.rst'' \<mapsto>
       ''Demos'' @ INDEX_SEPARATOR @ marker_table @ INDEX_SEPARATOR
         @ ''..\<newline>   DEMO TABLE MARKER\<newline>End'')"

text \<open>
  A catalogue of one heading whose text holds a carriage return, the table rendered from it,
  that table as it is read back from a file, and the file after one run in overwrite mode.
\<close>

definition cr_heading :: T where
  "cr_heading = \<lparr>text = ''Graph'' @ [CR] @ ''type'', link = None, details = None,
                   kind = Member notebook\<rparr>"

definition cr_table :: string where
  "cr_table = ''.. list-table::\<newline>   :header-rows: 1\<newline>\<newline>   *\<newline>     - Graph'' @ [CR] @ ''type''"

definition cr_table_read :: string where
  "cr_table_read = ''.. list-table::\<newline>   :header-rows: 1\<newline>\<newline>   *\<newline>     - Graph\<newline>type''"

definition fs_index_cr :: filesystem where
  "fs_index_cr =
     fs_index(''docs/demos/index.rst'' \<mapsto>
       ''Demos'' @ INDEX_SEPARATOR @ cr_table @ INDEX_SEPARATOR @ ''End'')"

text \<open>The table rendered from the one heading \<^verbatim>\<open>ALGORITHM\<close>.\<close>

definition algorithm_table :: string where
  "algorithm_table = ''.. list-table::\<newline>   :header-rows: 1\<newline>\<newline>   *\<newline>     - Algorithm''"

section \<open>Facts about splitting\<close>

lemma str_find_prefix: "prefix sep s \<Longrightarrow> str_find sep s = Some 0"
  by (cases s) auto

lemma str_find_occ:
  "str_find sep s = Some i \<Longrightarrow> s = take i s @ sep @ drop (i + length sep) s"
proof (induction s arbitrary: i)
  case Nil
  then show ?case by (simp split: if_splits)
next
  case (Cons c cs)
  show ?case
  proof (cases "prefix sep (c # cs)")
    case True
    with Cons.prems have "i = 0" by simp
    moreover from True obtain r where "c # cs = sep @ r" by (auto simp: prefix_def)
    ultimately show ?thesis by simp
  next
    case False
    with Cons.prems obtain j where j: "str_find sep cs = Some j" "i = Suc j" by auto
    from Cons.IH [OF j(1)] j(2) show ?thesis by simp
  qed
qed

lemma prefix_append_long:
  assumes "length p \<le> length x"
  shows "prefix p (x @ b) = prefix p x"
proof
  assume "prefix p (x @ b)"
  then obtain zs where "x @ b = p @ zs" by (auto simp: prefix_def)
  then have "take (length p) (x @ b) = p" by simp
  with assms have "p = take (length p) x" by simp
  then show "prefix p x" by (metis take_is_prefix)
next
  assume "prefix p x"
  then show "prefix p (x @ b)" by (rule prefix_prefix)
qed

lemma str_find_extend:
  "(str_find sep (a @ sep @ b) = Some (length a)) = (str_find sep (a @ sep) = Some (length a))"
proof (induction a)
  case Nil
  show ?case by (simp add: str_find_prefix)
next
  case (Cons c a)
  have "prefix sep ((c # a) @ sep @ b) = prefix sep ((c # a) @ sep)"
    using prefix_append_long [of sep "(c # a) @ sep" b] by simp
  with Cons show ?case by auto
qed

lemma str_split_parts_cut:
  assumes "sep \<noteq> []" and "str_find sep (a @ sep) = Some (length a)"
  shows "str_split_parts (a @ sep @ b) sep = a # str_split_parts b sep"
proof -
  from assms(2) have "str_find sep (a @ sep @ b) = Some (length a)"
    by (simp add: str_find_extend)
  with assms(1) show ?thesis
    by (subst str_split_parts.simps) simp
qed

lemma str_split_parts_not_Nil: "str_split_parts s sep \<noteq> []"
  by (subst str_split_parts.simps) (simp split: option.splits)

lemma str_split_parts_Cons:
  assumes "sep \<noteq> []" and "str_split_parts s sep = p # ps" and "ps \<noteq> []"
  shows "s = p @ sep @ drop (length p + length sep) s
         \<and> str_find sep (p @ sep) = Some (length p)
         \<and> str_split_parts (drop (length p + length sep) s) sep = ps"
proof (cases "str_find sep s")
  case None
  with assms show ?thesis by (subst (asm) str_split_parts.simps) simp
next
  case (Some i)
  from assms(1,2) Some
  have "take i s # str_split_parts (drop (i + length sep) s) sep = p # ps"
    by (subst (asm) str_split_parts.simps) simp
  then have p: "p = take i s" and ps: "ps = str_split_parts (drop (i + length sep) s) sep"
    by simp_all
  from str_find_bound [OF Some] have len: "length p = i" by (simp add: p)
  from str_find_occ [OF Some] have s: "s = p @ sep @ drop (length p + length sep) s"
    unfolding len by (simp add: p)
  from Some have "str_find sep (p @ sep @ drop (length p + length sep) s) = Some (length p)"
    using s len by simp
  then have "str_find sep (p @ sep) = Some (length p)" by (simp add: str_find_extend)
  with s ps len show ?thesis by simp
qed

lemma str_split_parts_single:
  "sep \<noteq> [] \<Longrightarrow> (str_split_parts s sep = [s]) = (str_find sep s = None)"
  by (subst str_split_parts.simps) (simp add: str_split_parts_not_Nil split: option.splits)

lemma str_split_parts_single_eq:
  assumes "sep \<noteq> []" and "str_split_parts s sep = [q]"
  shows "q = s \<and> str_find sep s = None"
proof (cases "str_find sep s")
  case None
  with assms show ?thesis by (subst (asm) str_split_parts.simps) simp
next
  case (Some i)
  with assms have "str_split_parts (drop (i + length sep) s) sep = []"
    by (subst (asm) str_split_parts.simps) simp
  then show ?thesis by (simp add: str_split_parts_not_Nil)
qed

lemma str_join_split_parts:
  "sep \<noteq> [] \<Longrightarrow> str_join sep (str_split_parts s sep) = s"
proof (induction s sep rule: str_split_parts.induct)
  case (1 s sep)
  show ?case
  proof (cases "str_find sep s")
    case None
    with 1 show ?thesis by (subst str_split_parts.simps) simp
  next
    case (Some i)
    let ?r = "drop (i + length sep) s"
    from 1 Some have IH: "str_join sep (str_split_parts ?r sep) = ?r" by simp
    obtain y ys where ys: "str_split_parts ?r sep = y # ys"
      using str_split_parts_not_Nil [of ?r sep] by (cases "str_split_parts ?r sep") auto
    from 1(2) Some have "str_split_parts s sep = take i s # y # ys"
      by (subst str_split_parts.simps) (simp add: ys)
    then have "str_join sep (str_split_parts s sep) = take i s @ sep @ ?r"
      using IH ys by simp
    with str_find_occ [OF Some] show ?thesis by simp
  qed
qed

lemma str_split_parts_three:
  assumes "sep \<noteq> []" and "str_split_parts s sep = [p, m, q]"
  shows "s = p @ sep @ m @ sep @ q"
    and "str_find sep (p @ sep) = Some (length p)"
    and "str_find sep (m @ sep) = Some (length m)"
    and "str_find sep q = None"
proof -
  let ?r = "drop (length p + length sep) s"
  from str_split_parts_Cons [OF assms(1,2)]
  have s: "s = p @ sep @ ?r" and fp: "str_find sep (p @ sep) = Some (length p)"
    and r: "str_split_parts ?r sep = [m, q]" by simp_all
  let ?t = "drop (length m + length sep) ?r"
  from str_split_parts_Cons [OF assms(1) r]
  have r': "?r = m @ sep @ ?t" and fm: "str_find sep (m @ sep) = Some (length m)"
    and t: "str_split_parts ?t sep = [q]" by simp_all
  from str_split_parts_single_eq [OF assms(1) t] have q: "q = ?t" "str_find sep ?t = None"
    by simp_all
  from s r' q(1) show "s = p @ sep @ m @ sep @ q" by metis
  from fp show "str_find sep (p @ sep) = Some (length p)" .
  from fm show "str_find sep (m @ sep) = Some (length m)" .
  from q show "str_find sep q = None" by simp
qed

lemma str_split_parts_rebuild:
  assumes "sep \<noteq> []"
    and "str_find sep (p @ sep) = Some (length p)"
    and "str_find sep (m @ sep) = Some (length m)"
    and "str_find sep q = None"
  shows "str_split_parts (p @ sep @ m @ sep @ q) sep = [p, m, q]"
proof -
  from assms(1,4) have "str_split_parts q sep = [q]"
    by (simp add: str_split_parts_single)
  with assms show ?thesis
    by (simp add: str_split_parts_cut)
qed

section \<open>Properties of the region patcher\<close>

lemma translate_newlines_no_CR: "CR \<notin> set (translate_newlines s)"
  by (induction s rule: translate_newlines.induct) (auto simp: CR_def LF_def)

lemma translate_newlines_id: "CR \<notin> set s \<Longrightarrow> translate_newlines s = s"
  by (induction s rule: translate_newlines.induct) auto

lemma sco_overwrite:
  assumes "fs file_name = Some raw"
    and "str_split (translate_newlines raw) separator = Inr [pre, current_middle, suf]"
  shows "separate_compare_overwrite file_name separator ''overwrite'' new_middle label fs
         = (Inr (), fs(file_name \<mapsto> pre @ separator @ new_middle @ separator @ suf))"
  using assms
  by (simp add: separate_compare_overwrite_def f_read_def f_seek_def f_write_def f_truncate_def)

lemma sco_compare_same:
  assumes "fs file_name = Some raw"
    and "str_split (translate_newlines raw) separator = Inr [pre, new_middle, suf]"
  shows "separate_compare_overwrite file_name separator ''compare'' new_middle label fs
         = (Inr (), fs)"
  using assms
  by (simp add: separate_compare_overwrite_def f_read_def)

lemma sco_count_mismatch:
  assumes "fs file_name = Some raw" and "separator \<noteq> []"
    and "length (str_split_parts (translate_newlines raw) separator) \<noteq> 3"
  shows "separate_compare_overwrite file_name separator action new_middle label fs
         = (Inl (error (SeparatorCount file_name
                          (length (str_split_parts (translate_newlines raw) separator) - 1)
                          separator) False), fs)"
  using assms
  by (simp add: separate_compare_overwrite_def f_read_def str_split_def)









lemma three_markers_no_CR: "CR \<notin> set three_markers_text"
  by (simp add: three_markers_text_def CR_def)

lemma adjacent_markers_no_CR: "CR \<notin> set adjacent_markers_text"
  by (simp add: adjacent_markers_text_def CR_def)

lemma three_markers_occurrences:
  "occurrences three_markers_text README_SEPARATOR = [5, 38, 65]"
  by code_simp

lemma adjacent_markers_occurrences:
  "occurrences adjacent_markers_text README_SEPARATOR = [5, 32]"
  by code_simp

lemma three_markers_split:
  "str_split_parts three_markers_text README_SEPARATOR
   = [''intro'', ''table'', ''<!-- DEMO TABLE MARKER -->\<newline>tail'']"
  by (simp add: three_markers_text_def README_SEPARATOR_def str_split_parts.simps)

lemma adjacent_markers_split:
  "str_split_parts adjacent_markers_text README_SEPARATOR
   = [''intro'', ''<!-- DEMO TABLE MARKER -->\<newline>tail'']"
  by (simp add: adjacent_markers_text_def README_SEPARATOR_def str_split_parts.simps)

lemma README_SEPARATOR_not_Nil: "README_SEPARATOR \<noteq> []"
  by (simp add: README_SEPARATOR_def)

text \<open>
  Claim C2. The patcher goes on exactly when \<^verbatim>\<open>split\<close> makes three parts, and reports
  \<^verbatim>\<open>len(parts) - 1\<close> as the number of instances found. \<^verbatim>\<open>split\<close> scans from left to
  right and goes on behind each separator it finds, so of two occurrences that share a
  character it finds one. The separator of \<^verbatim>\<open>demos/README.md\<close> begins and ends with a
  newline, and two marker lines on adjacent lines share it. In a file where the separator
  occurs three times, at 5, 38 and 65, the last two on adjacent lines, the patcher finds
  three parts and rewrites the file. In a file where it occurs twice, at 5 and 32, it finds
  two parts and exits with the report of one instance, in compare and in overwrite mode,
  leaving the file as it was.
\<close>

theorem separator_count_overlapping:
  "FILES ! 1 = Html ''demos/README.md'' README_SEPARATOR
   \<and> fs_three_markers ''demos/README.md'' = Some three_markers_text
   \<and> occurrences (translate_newlines three_markers_text) README_SEPARATOR = [5, 38, 65]
   \<and> separate_compare_overwrite ''demos/README.md'' README_SEPARATOR ''overwrite'' ''new'' ''table''
        fs_three_markers
      = (Inr (), fs_three_markers(''demos/README.md'' \<mapsto>
           ''intro'' @ README_SEPARATOR @ ''new'' @ README_SEPARATOR
             @ ''<!-- DEMO TABLE MARKER -->\<newline>tail''))
   \<and> fs_adjacent_markers ''demos/README.md'' = Some adjacent_markers_text
   \<and> occurrences (translate_newlines adjacent_markers_text) README_SEPARATOR = [5, 32]
   \<and> separate_compare_overwrite ''demos/README.md'' README_SEPARATOR ''overwrite'' ''new'' ''table''
        fs_adjacent_markers
      = (Inl (error (SeparatorCount ''demos/README.md'' 1 README_SEPARATOR) False),
         fs_adjacent_markers)
   \<and> separate_compare_overwrite ''demos/README.md'' README_SEPARATOR ''compare'' ''new'' ''table''
        fs_adjacent_markers
      = (Inl (error (SeparatorCount ''demos/README.md'' 1 README_SEPARATOR) False),
         fs_adjacent_markers)"
proof -
  have files: "FILES ! 1 = Html ''demos/README.md'' README_SEPARATOR"
    by (simp add: FILES_def README_SEPARATOR_def)
  have f3: "fs_three_markers ''demos/README.md'' = Some three_markers_text"
    by (simp add: fs_three_markers_def)
  have f2: "fs_adjacent_markers ''demos/README.md'' = Some adjacent_markers_text"
    by (simp add: fs_adjacent_markers_def)
  have t3: "translate_newlines three_markers_text = three_markers_text"
    by (rule translate_newlines_id [OF three_markers_no_CR])
  have t2: "translate_newlines adjacent_markers_text = adjacent_markers_text"
    by (rule translate_newlines_id [OF adjacent_markers_no_CR])
  have s3: "str_split (translate_newlines three_markers_text) README_SEPARATOR
            = Inr [''intro'', ''table'', ''<!-- DEMO TABLE MARKER -->\<newline>tail'']"
    by (simp add: t3 str_split_def README_SEPARATOR_not_Nil three_markers_split)
  have n2: "length (str_split_parts (translate_newlines adjacent_markers_text) README_SEPARATOR) = 2"
    by (simp add: t2 adjacent_markers_split)
  have o3: "separate_compare_overwrite ''demos/README.md'' README_SEPARATOR ''overwrite'' ''new''
              ''table'' fs_three_markers
            = (Inr (), fs_three_markers(''demos/README.md'' \<mapsto>
                 ''intro'' @ README_SEPARATOR @ ''new'' @ README_SEPARATOR
                   @ ''<!-- DEMO TABLE MARKER -->\<newline>tail''))"
    using f3 s3 by (rule sco_overwrite)
  have e2: "separate_compare_overwrite ''demos/README.md'' README_SEPARATOR action ''new''
              ''table'' fs_adjacent_markers
            = (Inl (error (SeparatorCount ''demos/README.md'' 1 README_SEPARATOR) False),
               fs_adjacent_markers)" for action
    using sco_count_mismatch [of fs_adjacent_markers "''demos/README.md''" adjacent_markers_text
        README_SEPARATOR action "''new''" "''table''", OF f2 README_SEPARATOR_not_Nil] n2
    by simp
  from files f3 f2 o3 e2 three_markers_occurrences adjacent_markers_occurrences t3 t2
  show ?thesis by simp
qed

lemma str_split_three_no_CR:
  assumes "str_split (translate_newlines raw) separator = Inr [pre, current_middle, suf]"
  shows "CR \<notin> set pre" and "CR \<notin> set separator" and "CR \<notin> set suf"
proof -
  from assms have "separator \<noteq> []"
    "str_split_parts (translate_newlines raw) separator = [pre, current_middle, suf]"
    by (auto simp: str_split_def split: if_splits)
  from str_split_parts_three(1) [OF this]
  have "translate_newlines raw = pre @ separator @ current_middle @ separator @ suf" .
  then have "set (pre @ separator @ current_middle @ separator @ suf) = set (translate_newlines raw)"
    by simp
  with translate_newlines_no_CR [of raw]
  show "CR \<notin> set pre" and "CR \<notin> set separator" and "CR \<notin> set suf"
    by auto
qed

text \<open>
  Claim C1, amended. Let the text read from the file split into exactly three parts, let the
  rendered table hold no carriage return, and let the table followed by the separator hold
  the separator nowhere before its end. Then overwrite mode succeeds; a second run in
  overwrite mode on the file it leaves succeeds and leaves the same file; and a run in compare
  mode on that file succeeds and leaves it as it is.
\<close>

theorem overwrite_idempotent:
  assumes "fs file_name = Some raw"
    and "str_split (translate_newlines raw) separator = Inr [pre, current_middle, suf]"
    and "str_find separator (new_middle @ separator) = Some (length new_middle)"
    and "CR \<notin> set new_middle"
  shows "separate_compare_overwrite file_name separator ''overwrite'' new_middle label fs
           = (Inr (), fs(file_name \<mapsto> pre @ separator @ new_middle @ separator @ suf))
       \<and> separate_compare_overwrite file_name separator ''overwrite'' new_middle label
           (fs(file_name \<mapsto> pre @ separator @ new_middle @ separator @ suf))
           = (Inr (), fs(file_name \<mapsto> pre @ separator @ new_middle @ separator @ suf))
       \<and> separate_compare_overwrite file_name separator ''compare'' new_middle label
           (fs(file_name \<mapsto> pre @ separator @ new_middle @ separator @ suf))
           = (Inr (), fs(file_name \<mapsto> pre @ separator @ new_middle @ separator @ suf))"
proof -
  let ?new = "pre @ separator @ new_middle @ separator @ suf"
  let ?fs' = "fs(file_name \<mapsto> ?new)"
  from assms(2) have ne: "separator \<noteq> []"
    and parts: "str_split_parts (translate_newlines raw) separator = [pre, current_middle, suf]"
    by (auto simp: str_split_def split: if_splits)
  have first: "separate_compare_overwrite file_name separator ''overwrite'' new_middle label fs
               = (Inr (), ?fs')"
    using assms(1,2) by (rule sco_overwrite)
  from str_split_three_no_CR [OF assms(2)] assms(4) have "CR \<notin> set ?new"
    by simp
  then have same: "translate_newlines ?new = ?new"
    by (rule translate_newlines_id)
  have "str_split_parts ?new separator = [pre, new_middle, suf]"
    using str_split_parts_rebuild [OF ne str_split_parts_three(2) [OF ne parts] assms(3)
        str_split_parts_three(4) [OF ne parts]] .
  with ne same have split': "str_split (translate_newlines ?new) separator = Inr [pre, new_middle, suf]"
    by (simp add: str_split_def)
  have file': "?fs' file_name = Some ?new" by simp
  have second: "separate_compare_overwrite file_name separator ''overwrite'' new_middle label ?fs'
        = (Inr (), ?fs')"
    using sco_overwrite [of ?fs' file_name ?new separator pre new_middle suf new_middle label,
        OF file' split'] by simp
  have third: "separate_compare_overwrite file_name separator ''compare'' new_middle label ?fs'
        = (Inr (), ?fs')"
    using file' split' by (rule sco_compare_same)
  from first second third show ?thesis by blast
qed

lemma INDEX_SEPARATOR_not_Nil: "INDEX_SEPARATOR \<noteq> []"
  by (simp add: INDEX_SEPARATOR_def)

lemma fs_index_file:
  "fs_index ''docs/demos/index.rst''
   = Some (''Demos'' @ INDEX_SEPARATOR @ ''old'' @ INDEX_SEPARATOR @ ''End'')"
  by (simp add: fs_index_def)

lemma index_text_no_CR:
  "CR \<notin> set (''Demos'' @ INDEX_SEPARATOR @ ''old'' @ INDEX_SEPARATOR @ ''End'')"
  by (simp add: INDEX_SEPARATOR_def CR_def)

lemma index_text_split:
  "str_split (translate_newlines (''Demos'' @ INDEX_SEPARATOR @ ''old'' @ INDEX_SEPARATOR @ ''End''))
     INDEX_SEPARATOR
   = Inr [''Demos'', ''old'', ''End'']"
  unfolding translate_newlines_id [OF index_text_no_CR]
  by (simp add: INDEX_SEPARATOR_def str_split_def str_split_parts.simps)

lemma algorithm_table_rendered:
  "Rst_render (Rst ''docs/demos/index.rst'' INDEX_SEPARATOR) [ALGORITHM] [] = Inr algorithm_table"
  by (simp add: Rst_render_def Rst_render_t_def Format_link_def ALGORITHM_def and_then_def
      algorithm_table_def)

lemma algorithm_table_no_CR: "CR \<notin> set algorithm_table"
  by (simp add: algorithm_table_def CR_def)

lemma algorithm_table_find:
  "str_find INDEX_SEPARATOR (algorithm_table @ INDEX_SEPARATOR) = Some (length algorithm_table)"
  by (simp add: algorithm_table_def INDEX_SEPARATOR_def)

theorem overwrite_idempotent_witness:
  "fs_index ''docs/demos/index.rst''
     = Some (''Demos'' @ INDEX_SEPARATOR @ ''old'' @ INDEX_SEPARATOR @ ''End'')
   \<and> str_split (translate_newlines (''Demos'' @ INDEX_SEPARATOR @ ''old'' @ INDEX_SEPARATOR @ ''End''))
        INDEX_SEPARATOR
      = Inr [''Demos'', ''old'', ''End'']
   \<and> Rst_render (Rst ''docs/demos/index.rst'' INDEX_SEPARATOR) [ALGORITHM] [] = Inr algorithm_table
   \<and> str_find INDEX_SEPARATOR (algorithm_table @ INDEX_SEPARATOR) = Some (length algorithm_table)
   \<and> CR \<notin> set algorithm_table
   \<and> separate_compare_overwrite ''docs/demos/index.rst'' INDEX_SEPARATOR ''overwrite''
        algorithm_table ''table'' fs_index
      = (Inr (), fs_index(''docs/demos/index.rst'' \<mapsto>
           ''Demos'' @ INDEX_SEPARATOR @ algorithm_table @ INDEX_SEPARATOR @ ''End''))
   \<and> separate_compare_overwrite ''docs/demos/index.rst'' INDEX_SEPARATOR ''overwrite''
        algorithm_table ''table''
        (fs_index(''docs/demos/index.rst'' \<mapsto>
           ''Demos'' @ INDEX_SEPARATOR @ algorithm_table @ INDEX_SEPARATOR @ ''End''))
      = (Inr (), fs_index(''docs/demos/index.rst'' \<mapsto>
           ''Demos'' @ INDEX_SEPARATOR @ algorithm_table @ INDEX_SEPARATOR @ ''End''))
   \<and> separate_compare_overwrite ''docs/demos/index.rst'' INDEX_SEPARATOR ''compare''
        algorithm_table ''table''
        (fs_index(''docs/demos/index.rst'' \<mapsto>
           ''Demos'' @ INDEX_SEPARATOR @ algorithm_table @ INDEX_SEPARATOR @ ''End''))
      = (Inr (), fs_index(''docs/demos/index.rst'' \<mapsto>
           ''Demos'' @ INDEX_SEPARATOR @ algorithm_table @ INDEX_SEPARATOR @ ''End''))"
  using overwrite_idempotent [of fs_index "''docs/demos/index.rst''"
      "''Demos'' @ INDEX_SEPARATOR @ ''old'' @ INDEX_SEPARATOR @ ''End''" INDEX_SEPARATOR
      "''Demos''" "''old''" "''End''" algorithm_table "''table''",
      OF fs_index_file index_text_split algorithm_table_find algorithm_table_no_CR]
    fs_index_file index_text_split algorithm_table_rendered algorithm_table_find
    algorithm_table_no_CR
  by blast

lemma marker_table_rendered:
  "Rst_render (Rst ''docs/demos/index.rst'' INDEX_SEPARATOR) [marker_heading] [] = Inr marker_table"
  by (simp add: Rst_render_def Rst_render_t_def Format_link_def marker_heading_def and_then_def
      marker_table_def marker_table_head_def)

lemma marker_table_no_CR:
  "CR \<notin> set (''Demos'' @ INDEX_SEPARATOR @ marker_table @ INDEX_SEPARATOR @ ''End'')"
  by (simp add: INDEX_SEPARATOR_def marker_table_def marker_table_head_def CR_def)

lemma marker_table_split:
  "str_split (translate_newlines (''Demos'' @ INDEX_SEPARATOR @ marker_table @ INDEX_SEPARATOR @ ''End''))
     INDEX_SEPARATOR
   = Inr [''Demos'', marker_table_head, ''..\<newline>   DEMO TABLE MARKER\<newline>End'']"
  unfolding translate_newlines_id [OF marker_table_no_CR]
  by (simp add: INDEX_SEPARATOR_def marker_table_def marker_table_head_def str_split_def
      str_split_parts.simps)

lemma marker_table_differs: "marker_table \<noteq> marker_table_head"
  by (simp add: marker_table_def)

lemma fs_index_once_file:
  "fs_index_once ''docs/demos/index.rst''
   = Some (''Demos'' @ INDEX_SEPARATOR @ marker_table @ INDEX_SEPARATOR @ ''End'')"
  by (simp add: fs_index_once_def)

lemma fs_index_twice_file:
  "fs_index_twice ''docs/demos/index.rst''
   = Some (''Demos'' @ INDEX_SEPARATOR @ marker_table @ INDEX_SEPARATOR
            @ ''..\<newline>   DEMO TABLE MARKER\<newline>End'')"
  by (simp add: fs_index_twice_def)

lemma sco_compare_differs:
  assumes "fs file_name = Some raw"
    and "str_split (translate_newlines raw) separator = Inr [pre, current_middle, suf]"
    and "new_middle \<noteq> current_middle"
  shows "separate_compare_overwrite file_name separator ''compare'' new_middle label fs
         = (Inl (error (ContentDiffers file_name label current_middle new_middle) True), fs)"
  using assms
  by (simp add: separate_compare_overwrite_def f_read_def)

lemma cr_table_rendered:
  "Rst_render (Rst ''docs/demos/index.rst'' INDEX_SEPARATOR) [cr_heading] [] = Inr cr_table"
  by (simp add: Rst_render_def Rst_render_t_def Format_link_def cr_heading_def and_then_def
      cr_table_def)

lemma cr_table_translated:
  "translate_newlines (''Demos'' @ INDEX_SEPARATOR @ cr_table @ INDEX_SEPARATOR @ ''End'')
   = ''Demos'' @ INDEX_SEPARATOR @ cr_table_read @ INDEX_SEPARATOR @ ''End''"
  by (simp add: INDEX_SEPARATOR_def cr_table_def cr_table_read_def CR_def LF_def)

lemma cr_table_split:
  "str_split (translate_newlines (''Demos'' @ INDEX_SEPARATOR @ cr_table @ INDEX_SEPARATOR @ ''End''))
     INDEX_SEPARATOR
   = Inr [''Demos'', cr_table_read, ''End'']"
  unfolding cr_table_translated
  by (simp add: INDEX_SEPARATOR_def cr_table_read_def str_split_def str_split_parts.simps)

lemma cr_table_differs: "cr_table \<noteq> cr_table_read"
  by (simp add: cr_table_def cr_table_read_def CR_def)

lemma fs_index_cr_file:
  "fs_index_cr ''docs/demos/index.rst''
   = Some (''Demos'' @ INDEX_SEPARATOR @ cr_table @ INDEX_SEPARATOR @ ''End'')"
  by (simp add: fs_index_cr_def)

text \<open>
  Claim C1 as stated fails for a catalogue whose rendering ends in the separator without its
  last newline: here one heading whose text ends in the two marker lines of
  \<^verbatim>\<open>docs/demos/index.rst\<close>. The first run in overwrite mode succeeds. In the file it
  leaves, the separator occurs first behind the prefix and next inside the table followed by
  the closing separator, so a second run in overwrite mode takes a shorter middle and a
  longer suffix and leaves a different, longer file, and a run in compare mode after the
  first overwrite exits with the report that the table differs. It fails also for a
  catalogue whose rendering holds a carriage return: the table is read back with a newline in
  its place, and compare mode after overwrite mode exits with the same report.
\<close>

theorem overwrite_twice_counterexample:
  "Rst_render (Rst ''docs/demos/index.rst'' INDEX_SEPARATOR) [marker_heading] [] = Inr marker_table
   \<and> separate_compare_overwrite ''docs/demos/index.rst'' INDEX_SEPARATOR ''overwrite''
        marker_table ''table'' fs_index
      = (Inr (), fs_index_once)
   \<and> separate_compare_overwrite ''docs/demos/index.rst'' INDEX_SEPARATOR ''overwrite''
        marker_table ''table'' fs_index_once
      = (Inr (), fs_index_twice)
   \<and> fs_index_twice ''docs/demos/index.rst'' \<noteq> fs_index_once ''docs/demos/index.rst''
   \<and> separate_compare_overwrite ''docs/demos/index.rst'' INDEX_SEPARATOR ''compare''
        marker_table ''table'' fs_index_once
      = (Inl (error (ContentDiffers ''docs/demos/index.rst'' ''table'' marker_table_head
                       marker_table) True), fs_index_once)
   \<and> Rst_render (Rst ''docs/demos/index.rst'' INDEX_SEPARATOR) [cr_heading] [] = Inr cr_table
   \<and> separate_compare_overwrite ''docs/demos/index.rst'' INDEX_SEPARATOR ''overwrite''
        cr_table ''table'' fs_index
      = (Inr (), fs_index_cr)
   \<and> separate_compare_overwrite ''docs/demos/index.rst'' INDEX_SEPARATOR ''compare''
        cr_table ''table'' fs_index_cr
      = (Inl (error (ContentDiffers ''docs/demos/index.rst'' ''table'' cr_table_read
                       cr_table) True), fs_index_cr)"
proof -
  have one: "separate_compare_overwrite ''docs/demos/index.rst'' INDEX_SEPARATOR ''overwrite''
        marker_table ''table'' fs_index = (Inr (), fs_index_once)"
    unfolding fs_index_once_def using fs_index_file index_text_split by (rule sco_overwrite)
  have two: "separate_compare_overwrite ''docs/demos/index.rst'' INDEX_SEPARATOR ''overwrite''
        marker_table ''table'' fs_index_once = (Inr (), fs_index_twice)"
    unfolding fs_index_twice_def using fs_index_once_file marker_table_split by (rule sco_overwrite)
  have differ: "fs_index_twice ''docs/demos/index.rst'' \<noteq> fs_index_once ''docs/demos/index.rst''"
    by (simp add: fs_index_once_file fs_index_twice_file)
  have cmp: "separate_compare_overwrite ''docs/demos/index.rst'' INDEX_SEPARATOR ''compare''
        marker_table ''table'' fs_index_once
      = (Inl (error (ContentDiffers ''docs/demos/index.rst'' ''table'' marker_table_head
                       marker_table) True), fs_index_once)"
    using fs_index_once_file marker_table_split marker_table_differs by (rule sco_compare_differs)
  have cr_one: "separate_compare_overwrite ''docs/demos/index.rst'' INDEX_SEPARATOR ''overwrite''
        cr_table ''table'' fs_index = (Inr (), fs_index_cr)"
    unfolding fs_index_cr_def using fs_index_file index_text_split by (rule sco_overwrite)
  have cr_cmp: "separate_compare_overwrite ''docs/demos/index.rst'' INDEX_SEPARATOR ''compare''
        cr_table ''table'' fs_index_cr
      = (Inl (error (ContentDiffers ''docs/demos/index.rst'' ''table'' cr_table_read
                       cr_table) True), fs_index_cr)"
    using fs_index_cr_file cr_table_split cr_table_differs by (rule sco_compare_differs)
  from marker_table_rendered one two differ cmp cr_table_rendered cr_one cr_cmp
  show ?thesis by blast
qed

section \<open>Properties of link resolution\<close>

lemma str_lower_Cons: "str_lower (c # cs) = char_lower c # str_lower cs"
  by (simp add: str_lower_def)

lemma str_lower_Nil: "str_lower [] = []"
  by (simp add: str_lower_def)

text \<open>
  Claim C6. For a text node of kind index with the link \<^verbatim>\<open>node-classification\<close>, checking
  resolution gives \<^verbatim>\<open>node-classification/README.md\<close> for the hypertext format and
  \<^verbatim>\<open>node-classification/index.rst\<close> for the structured-text format; rendering resolution
  gives \<^verbatim>\<open>node-classification/index\<close> for the structured-text format and, for the
  hypertext format, the same as checking resolution.
\<close>

theorem link_suffix_asymmetry:
  assumes "kind t = Member index" and "link t = Some ''node-classification''"
  shows "Format_link (Html f s) t True = Inr (Some ''node-classification/README.md'')
       \<and> Format_link (Rst f' s') t True = Inr (Some ''node-classification/index.rst'')
       \<and> Format_link (Rst f' s') t False = Inr (Some ''node-classification/index'')
       \<and> Format_link (Html f s) t False = Format_link (Html f s) t True"
  using assms by (simp add: Format_link_def)

theorem link_suffix_asymmetry_witness:
  "kind NC = Member index \<and> link NC = Some ''node-classification''
   \<and> Format_link (Html ''demos/README.md'' ''--'') NC True = Inr (Some ''node-classification/README.md'')
   \<and> Format_link (Rst ''docs/demos/index.rst'' ''--'') NC True = Inr (Some ''node-classification/index.rst'')
   \<and> Format_link (Rst ''docs/demos/index.rst'' ''--'') NC False = Inr (Some ''node-classification/index'')
   \<and> Format_link (Html ''demos/README.md'' ''--'') NC False = Inr (Some ''node-classification/README.md'')"
proof -
  have k: "kind NC = Member index" and l: "link NC = Some ''node-classification''"
    by (simp_all add: NC_def)
  from link_suffix_asymmetry [OF k l, of "''demos/README.md''" "''--''" "''docs/demos/index.rst''" "''--''"]
    k l
  show ?thesis by simp
qed

lemma T_init_fields:
  assumes "T_init text_arg link_arg details_arg kind_arg = Inr t"
  shows "link t = link_arg" and "details t = details_arg" and "kind t = kind_arg"
    and "\<exists>k. kind_arg = Member k"
    and "text t = (case text_arg of None \<Rightarrow> LINK_DEFAULT_TEXT | Some s \<Rightarrow> s)"
  using assms
  by (auto simp: T_init_def Let_def split: if_splits kind_value.splits)

lemma Format_link_Member:
  assumes "kind t = Member k"
  shows "Format_link fmt t checking
         = Inr (map_option (\<lambda>l. l @ (case k of index \<Rightarrow> index_suffix fmt checking
                                             | notebook \<Rightarrow> notebook_suffix fmt checking)) (link t))"
  using assms by (cases "link t"; cases k) (simp_all add: Format_link_def)

lemma Format_link_fall_through:
  "kind t = NonMember r \<Longrightarrow> link t = Some l \<Longrightarrow> Format_link fmt t checking = Inl UnboundLocalError"
  by (simp add: Format_link_def)

text \<open>
  Claim C10. A text node that the constructor of \<^verbatim>\<open>T\<close> returns has a member of
  \<^verbatim>\<open>LinkKind\<close> as its kind, so \<^verbatim>\<open>Format.link\<close> returns on it, never falls through to the
  unassigned suffix, and returns \<^verbatim>\<open>None\<close> exactly when the link of the node is \<^verbatim>\<open>None\<close>.
\<close>

theorem constructed_node_link_total:
  assumes "T_init text_arg link_arg details_arg kind_arg = Inr t"
  shows "(\<exists>k. kind t = Member k)
       \<and> (\<exists>r. Format_link fmt t checking = Inr r \<and> (r = None \<longleftrightarrow> link t = None))
       \<and> Format_link fmt t checking \<noteq> Inl UnboundLocalError"
proof -
  from T_init_fields(3,4) [OF assms] obtain k where k: "kind t = Member k" by auto
  from Format_link_Member [of t k fmt "checking", OF k] k show ?thesis by auto
qed

theorem constructed_node_link_total_witness:
  "T_init (Some ''NC'') (Some ''node-classification'') (Some ''Node classification'') (Member index)
     = Inr NC
   \<and> kind NC = Member index
   \<and> Format_link (Rst ''docs/demos/index.rst'' ''--'') NC False = Inr (Some ''node-classification/index'')
   \<and> link NC \<noteq> None"
proof -
  have c: "T_init (Some ''NC'') (Some ''node-classification'') (Some ''Node classification'')
             (Member index) = Inr NC"
    by (simp add: T_init_def NC_def)
  from constructed_node_link_total [OF c, of "Rst ''docs/demos/index.rst'' ''--''" False] c
  show ?thesis by (simp add: NC_def Format_link_def)
qed

section \<open>Properties of the link validator\<close>

lemma os_path_join_relative:
  "\<not> os_path_isabs l \<Longrightarrow>
     os_path_join base_dir l
     = (if base_dir = [] \<or> suffix ''/'' base_dir then base_dir @ l else base_dir @ ''/'' @ l)"
  by (simp add: os_path_join_def os_path_isabs_def)

lemma prefix_http_scheme:
  "prefix ''http://'' s \<or> prefix ''https://'' s \<Longrightarrow> prefix ''http'' s"
  by (auto simp: prefix_def)

text \<open>
  Claim C9. A link whose lower-cased form begins with the four characters \<^verbatim>\<open>http\<close> is
  invalid whatever exists in the file system: the test is the bare prefix, so it also rejects a
  relative path to an existing entry such as \<^verbatim>\<open>http-notes/index.rst\<close>, which begins with no
  scheme marker.
\<close>

theorem http_prefix_is_invalid:
  assumes "str_startswith (str_lower l) ''http''"
  shows "\<not> link_is_valid_relative exists (Some l) base_dir"
  using assms by (simp add: link_is_valid_relative_def)

lemma lower_http_notes: "str_lower ''http-notes/index.rst'' = ''http-notes/index.rst''"
  by (simp add: str_lower_def char_lower_def)

theorem http_prefix_is_invalid_witness:
  "str_startswith (str_lower ''http-notes/index.rst'') ''http''
   \<and> \<not> os_path_isabs ''http-notes/index.rst''
   \<and> notes_exist (os_path_join ''docs/demos'' ''http-notes/index.rst'')
   \<and> \<not> prefix ''http://'' (str_lower ''http-notes/index.rst'')
   \<and> \<not> prefix ''https://'' (str_lower ''http-notes/index.rst'')
   \<and> \<not> link_is_valid_relative notes_exist (Some ''http-notes/index.rst'') ''docs/demos''"
proof -
  have h: "str_startswith (str_lower ''http-notes/index.rst'') ''http''"
    by (simp add: lower_http_notes str_startswith_def)
  have "notes_exist (os_path_join ''docs/demos'' ''http-notes/index.rst'')"
    by (simp add: notes_exist_def os_path_join_def suffix_def)
  with http_prefix_is_invalid [OF h, of notes_exist "''docs/demos''"] h
  show ?thesis by (simp add: lower_http_notes os_path_isabs_def)
qed

text \<open>
  Claim C4, as stated, fails: with the scheme markers \<^verbatim>\<open>http://\<close> and \<^verbatim>\<open>https://\<close> the
  existing relative path \<^verbatim>\<open>http-notes/index.rst\<close> would be valid, and the code rejects it.
\<close>

theorem validator_scheme_marker_counterexample:
  "link_is_valid_relative notes_exist (Some ''http-notes/index.rst'') ''docs/demos''
   \<noteq> spec_link_is_valid notes_exist (Some ''http-notes/index.rst'') ''docs/demos''"
  by (simp add: link_is_valid_relative_def spec_link_is_valid_def lower_http_notes
      str_startswith_def os_path_isabs_def os_path_join_def notes_exist_def suffix_def)

text \<open>
  Claim C4, amended. A \<^verbatim>\<open>None\<close> link is valid; an absolute path is invalid; a path whose
  lower-cased form begins with \<^verbatim>\<open>http\<close> is invalid; any other link is valid exactly when an
  entry exists at the base directory joined with the link. The code agrees with the
  specification's wording on every link whose lower-cased form does not begin with \<^verbatim>\<open>http\<close>
  or does begin with a scheme marker.
\<close>

theorem validator_decides:
  "link_is_valid_relative exists None base_dir
   \<and> (os_path_isabs l \<longrightarrow> \<not> link_is_valid_relative exists (Some l) base_dir)
   \<and> (prefix ''http'' (str_lower l) \<longrightarrow> \<not> link_is_valid_relative exists (Some l) base_dir)
   \<and> (\<not> os_path_isabs l \<and> \<not> prefix ''http'' (str_lower l) \<longrightarrow>
        link_is_valid_relative exists (Some l) base_dir
        = exists (if base_dir = [] \<or> suffix ''/'' base_dir then base_dir @ l
                  else base_dir @ ''/'' @ l))
   \<and> (\<not> prefix ''http'' (str_lower l)
        \<or> prefix ''http://'' (str_lower l) \<or> prefix ''https://'' (str_lower l) \<longrightarrow>
        link_is_valid_relative exists (Some l) base_dir
        = spec_link_is_valid exists (Some l) base_dir)"
proof (intro conjI impI)
  show "link_is_valid_relative exists None base_dir"
    by (simp add: link_is_valid_relative_def)
  show "\<not> link_is_valid_relative exists (Some l) base_dir" if "os_path_isabs l"
    using that by (simp add: link_is_valid_relative_def)
  show "\<not> link_is_valid_relative exists (Some l) base_dir" if "prefix ''http'' (str_lower l)"
    using that by (simp add: link_is_valid_relative_def str_startswith_def)
  show "link_is_valid_relative exists (Some l) base_dir
        = exists (if base_dir = [] \<or> suffix ''/'' base_dir then base_dir @ l
                  else base_dir @ ''/'' @ l)"
    if "\<not> os_path_isabs l \<and> \<not> prefix ''http'' (str_lower l)"
    using that os_path_join_relative [of l base_dir]
    by (simp add: link_is_valid_relative_def str_startswith_def)
  show "link_is_valid_relative exists (Some l) base_dir
        = spec_link_is_valid exists (Some l) base_dir"
    if "\<not> prefix ''http'' (str_lower l)
        \<or> prefix ''http://'' (str_lower l) \<or> prefix ''https://'' (str_lower l)"
    using that prefix_http_scheme [of "str_lower l"]
    by (auto simp: link_is_valid_relative_def spec_link_is_valid_def str_startswith_def)
qed

theorem validator_decides_witness:
  "\<not> os_path_isabs ''node-classification/README.md''
   \<and> \<not> prefix ''http'' (str_lower ''node-classification/README.md'')
   \<and> link_is_valid_relative readme_exists (Some ''node-classification/README.md'') ''demos''
   \<and> os_path_isabs ''/etc/passwd''
   \<and> \<not> link_is_valid_relative readme_exists (Some ''/etc/passwd'') ''demos''
   \<and> prefix ''http'' (str_lower ''HTTPS://example.com/x'')
   \<and> \<not> link_is_valid_relative readme_exists (Some ''HTTPS://example.com/x'') ''demos''"
proof -
  have a: "\<not> os_path_isabs ''node-classification/README.md''"
    by (simp add: os_path_isabs_def)
  have b: "\<not> prefix ''http'' (str_lower ''node-classification/README.md'')"
    by (simp add: str_lower_def char_lower_def)
  have c: "os_path_isabs ''/etc/passwd''"
    by (simp add: os_path_isabs_def)
  have "str_lower ''HTTPS://example.com/x'' = ''https://example.com/x''"
    by code_simp
  then have d: "prefix ''http'' (str_lower ''HTTPS://example.com/x'')"
    by simp
  have e: "readme_exists ''demos/node-classification/README.md''"
    by (simp add: readme_exists_def)
  from validator_decides [of readme_exists "''demos''" "''node-classification/README.md''"] a b e
  have 1: "link_is_valid_relative readme_exists (Some ''node-classification/README.md'') ''demos''"
    by (simp add: suffix_def)
  from validator_decides [of readme_exists "''demos''" "''/etc/passwd''"] c
  have 2: "\<not> link_is_valid_relative readme_exists (Some ''/etc/passwd'') ''demos''"
    by blast
  from validator_decides [of readme_exists "''demos''" "''HTTPS://example.com/x''"] d
  have 3: "\<not> link_is_valid_relative readme_exists (Some ''HTTPS://example.com/x'') ''demos''"
    by blast
  from a b c d 1 2 3 show ?thesis by blast
qed

section \<open>Properties of cell normalisation\<close>

lemma collect_all_Inr:
  assumes "\<forall>x \<in> set xs. \<exists>y. f x = Inr y"
  shows "\<exists>ys. collect (map f xs) = Inr ys \<and> length ys = length xs
              \<and> (\<forall>i < length xs. f (xs ! i) = Inr (ys ! i))"
  using assms
proof (induction xs)
  case Nil
  show ?case by simp
next
  case (Cons x xs)
  from Cons.prems obtain y where y: "f x = Inr y" by auto
  from Cons obtain ys where ys: "collect (map f xs) = Inr ys" "length ys = length xs"
    "\<forall>i < length xs. f (xs ! i) = Inr (ys ! i)" by auto
  have "\<forall>i < length (x # xs). f ((x # xs) ! i) = Inr ((y # ys) ! i)"
    using y ys(3) by (auto simp: nth_Cons split: nat.splits)
  with y ys show ?case by auto
qed

lemma collect_fixed:
  assumes "\<forall>y \<in> set ys. f y = Inr y"
  shows "collect (map f ys) = Inr ys"
  using assms by (induction ys) auto

lemma textify_total: "\<exists>out. textify inp = Inr out"
proof (induction inp rule: textify.induct)
  case (3 xs)
  show ?case
  proof (cases "xs = []")
    case True
    then show ?thesis by simp
  next
    case False
    with 3 have "\<forall>x \<in> set xs. \<exists>y. textify x = Inr y" by simp
    from collect_all_Inr [OF this] False show ?thesis by auto
  qed
qed (auto simp: T_init_def)

lemma textify_list:
  assumes "xs \<noteq> []"
  shows "\<exists>ys. textify (PyList xs) = Inr (PyList ys) \<and> length ys = length xs
              \<and> (\<forall>i < length xs. textify (xs ! i) = Inr (ys ! i))"
proof -
  have "\<forall>x \<in> set xs. \<exists>y. textify x = Inr y" by (simp add: textify_total)
  from collect_all_Inr [OF this] assms show ?thesis by auto
qed

lemma textify_idem: "textify inp = Inr out \<Longrightarrow> textify out = Inr out"
proof (induction inp arbitrary: out rule: textify.induct)
  case (3 xs)
  show ?case
  proof (cases "xs = []")
    case True
    with 3 show ?thesis by auto
  next
    case False
    from textify_list [OF False] obtain ys where ys: "textify (PyList xs) = Inr (PyList ys)"
      "length ys = length xs" "\<forall>i < length xs. textify (xs ! i) = Inr (ys ! i)" by blast
    with "3.prems" have out: "out = PyList ys" by simp
    have "\<forall>y \<in> set ys. textify y = Inr y"
    proof
      fix y assume "y \<in> set ys"
      then obtain i where i: "i < length ys" "y = ys ! i" by (auto simp: in_set_conv_nth)
      with ys have "textify (xs ! i) = Inr y" "xs ! i \<in> set xs" by auto
      with "3.IH" False show "textify y = Inr y" by auto
    qed
    then have "collect (map textify ys) = Inr ys" by (rule collect_fixed)
    moreover from ys(2) False have "ys \<noteq> []" by auto
    ultimately show ?thesis using out by simp
  qed
qed (auto simp: T_init_def split: if_splits)

text \<open>
  Claim C7. \<^verbatim>\<open>T.textify\<close> maps a falsy input to \<^verbatim>\<open>None\<close>, \<^verbatim>\<open>True\<close> to the text node with
  the fixed label, a list to the list of its normalised elements in the same order, a text
  node to itself and any other value, a non-empty string, to the text node with that text. It
  raises on no input, and normalising its result again returns the result unchanged.
\<close>

theorem textify_normalises:
  "(\<not> truthy inp \<longrightarrow> textify inp = Inr PyNone)
   \<and> textify (PyBool True)
       = Inr (PyT \<lparr>text = TRUE_TEXT, link = None, details = None, kind = Member notebook\<rparr>)
   \<and> (xs \<noteq> [] \<longrightarrow>
        (\<exists>ys. textify (PyList xs) = Inr (PyList ys) \<and> length ys = length xs
               \<and> (\<forall>i < length xs. textify (xs ! i) = Inr (ys ! i))))
   \<and> textify (PyT t) = Inr (PyT t)
   \<and> (s \<noteq> [] \<longrightarrow>
        textify (PyStr s)
        = Inr (PyT \<lparr>text = s, link = None, details = None, kind = Member notebook\<rparr>))
   \<and> (\<exists>out. textify inp = Inr out \<and> textify out = Inr out)"
proof (intro conjI impI)
  show "textify inp = Inr PyNone" if "\<not> truthy inp"
    using that by (cases inp) simp_all
  show "textify (PyBool True)
        = Inr (PyT \<lparr>text = TRUE_TEXT, link = None, details = None, kind = Member notebook\<rparr>)"
    by (simp add: T_init_def)
  show "\<exists>ys. textify (PyList xs) = Inr (PyList ys) \<and> length ys = length xs
             \<and> (\<forall>i < length xs. textify (xs ! i) = Inr (ys ! i))" if "xs \<noteq> []"
    using that by (rule textify_list)
  show "textify (PyT t) = Inr (PyT t)"
    by simp
  show "textify (PyStr s)
        = Inr (PyT \<lparr>text = s, link = None, details = None, kind = Member notebook\<rparr>)" if "s \<noteq> []"
    using that by (simp add: T_init_def)
  from textify_total [of inp] obtain out where "textify inp = Inr out" by blast
  with textify_idem [OF this] show "\<exists>out. textify inp = Inr out \<and> textify out = Inr out"
    by blast
qed

theorem textify_normalises_witness:
  "\<not> truthy (PyStr []) \<and> textify (PyStr []) = Inr PyNone
   \<and> [PyBool True, PyT NC, PyList [], PyStr ''see RGCN''] \<noteq> []
   \<and> textify (PyList [PyBool True, PyT NC, PyList [], PyStr ''see RGCN''])
     = Inr (PyList [PyT \<lparr>text = ''yes'', link = None, details = None, kind = Member notebook\<rparr>,
                    PyT NC, PyNone,
                    PyT \<lparr>text = ''see RGCN'', link = None, details = None, kind = Member notebook\<rparr>])
   \<and> textify (PyList [PyT \<lparr>text = ''yes'', link = None, details = None, kind = Member notebook\<rparr>,
                      PyT NC, PyNone,
                      PyT \<lparr>text = ''see RGCN'', link = None, details = None, kind = Member notebook\<rparr>])
     = Inr (PyList [PyT \<lparr>text = ''yes'', link = None, details = None, kind = Member notebook\<rparr>,
                    PyT NC, PyNone,
                    PyT \<lparr>text = ''see RGCN'', link = None, details = None, kind = Member notebook\<rparr>])"
proof -
  let ?xs = "[PyBool True, PyT NC, PyList [], PyStr ''see RGCN'']"
  have v: "textify (PyList ?xs)
     = Inr (PyList [PyT \<lparr>text = ''yes'', link = None, details = None, kind = Member notebook\<rparr>,
                    PyT NC, PyNone,
                    PyT \<lparr>text = ''see RGCN'', link = None, details = None, kind = Member notebook\<rparr>])"
    by (simp add: T_init_def TRUE_TEXT_def)
  from textify_normalises [of "PyList ?xs" ?xs NC "''see RGCN''"]
  obtain out where "textify (PyList ?xs) = Inr out" "textify out = Inr out" by blast
  with v have "textify (PyList [PyT \<lparr>text = ''yes'', link = None, details = None, kind = Member notebook\<rparr>,
                      PyT NC, PyNone,
                      PyT \<lparr>text = ''see RGCN'', link = None, details = None, kind = Member notebook\<rparr>])
     = Inr (PyList [PyT \<lparr>text = ''yes'', link = None, details = None, kind = Member notebook\<rparr>,
                    PyT NC, PyNone,
                    PyT \<lparr>text = ''see RGCN'', link = None, details = None, kind = Member notebook\<rparr>])"
    by simp
  with v show ?thesis by simp
qed

section \<open>Properties of the link extractor\<close>

lemma checking_suffix_not_Nil: "kind_ok t \<Longrightarrow> checking_suffix fmt (kind t) \<noteq> []"
  by (cases fmt; cases "kind t"; cases "case kind t of Member k \<Rightarrow> k")
     (auto simp: kind_ok_def split: kind_value.splits LinkKind.splits)

lemma Format_link_checking:
  assumes "kind_ok t"
  shows "Format_link fmt t True = Inr (map_option (\<lambda>l. l @ checking_suffix fmt (kind t)) (link t))"
  using assms
  by (cases "link t"; cases "kind t"; cases "case kind t of Member k \<Rightarrow> k")
     (auto simp: kind_ok_def Format_link_def split: kind_value.splits LinkKind.splits)

lemma yield_from_follows:
  assumes "\<forall>x \<in> set xs. follows (F x) (S x)"
  shows "follows (yield_from (map F xs)) (map_option concat (those (map S xs)))"
  using assms
proof (induction xs)
  case Nil
  show ?case by (simp add: follows_def)
next
  case (Cons x xs)
  then have IH: "follows (yield_from (map F xs)) (map_option concat (those (map S xs)))"
    and x: "follows (F x) (S x)" by auto
  show ?case
  proof (cases "S x")
    case None
    with x show ?thesis by (auto simp: follows_def)
  next
    case (Some ps)
    with x have Fx: "F x = (ps, None)" by (simp add: follows_def)
    show ?thesis
    proof (cases "those (map S xs)")
      case None
      with IH obtain qs where "yield_from (map F xs) = (qs, Some ValueError)"
        by (auto simp: follows_def)
      with Some None Fx show ?thesis by (simp add: follows_def)
    next
      case (Some pss)
      with IH have "yield_from (map F xs) = (concat pss, None)" by (simp add: follows_def)
      with \<open>S x = Some ps\<close> Some Fx show ?thesis by (simp add: follows_def)
    qed
  qed
qed

lemma find_links_cell_follows:
  "kinds_ok_cell c \<Longrightarrow> follows (find_links_cell c fmt) (spec_links_cell c fmt)"
proof (induction c)
  case (PyT t)
  then have ok: "kind_ok t" by simp
  show ?case
    using Format_link_checking [OF ok, of fmt] checking_suffix_not_Nil [OF ok, of fmt]
    by (cases "link t") (simp_all add: follows_def)
next
  case (PyList xs)
  then have "\<forall>x \<in> set xs. follows (find_links_cell x fmt) (spec_links_cell x fmt)"
    by (auto simp: list_all_iff)
  from yield_from_follows [OF this] show ?case by simp
qed (simp_all add: follows_def)

lemma find_links_follows:
  "kinds_ok e \<Longrightarrow> follows (find_links e fmt) (spec_links e fmt)"
proof (induction e)
  case (Cell c)
  then show ?case by (simp add: find_links_cell_follows)
next
  case (AlgorithmObj a)
  then have "\<forall>c \<in> set (map snd (columns a)).
      follows (find_links_cell c fmt) (spec_links_cell c fmt)"
    by (auto simp: list_all_iff find_links_cell_follows)
  from yield_from_follows [OF this] show ?case by simp
next
  case (ListOf es)
  then have "\<forall>e \<in> set es. follows (find_links e fmt) (spec_links e fmt)"
    by (auto simp: list_all_iff)
  from yield_from_follows [OF this] show ?case by simp
qed

lemma collect_map_fst:
  "collect (map (\<lambda>(name, v). map_sum id (Pair name) (f v)) kvs) = Inr cs \<Longrightarrow>
     map fst cs = map fst kvs"
proof (induction kvs arbitrary: cs)
  case Nil
  then show ?case by simp
next
  case (Cons kv kvs)
  let ?rest = "collect (map (\<lambda>(name, v). map_sum id (Pair name) (f v)) kvs)"
  obtain k v where kv: "kv = (k, v)" by (cases kv)
  show ?case
  proof (cases "f v")
    case (Inl e)
    with Cons.prems kv show ?thesis by simp
  next
    case y: (Inr y)
    show ?thesis
    proof (cases ?rest)
      case (Inl e)
      with Cons.prems kv y show ?thesis by (simp add: id_def)
    next
      case (Inr cs')
      with Cons.prems kv y have "cs = (k, y) # cs'" by (simp add: id_def)
      with Cons.IH [OF Inr] kv show ?thesis by simp
    qed
  qed
qed

lemma Algorithm_init_keys:
  assumes "Algorithm_init algorithm heterogeneous directed weighted temporal features nc
             interpretability_nc lp rl inductive gc = Inr a"
  shows "map fst (columns a) = COLUMNS"
proof -
  let ?kvs = "[(ALGORITHM, algorithm), (HETEROGENEOUS, heterogeneous), (DIRECTED, directed),
             (WEIGHTED, weighted), (TEMPORAL, temporal), (FEATURES, features), (NC, nc),
             (LP, lp), (RL, rl), (INDUCTIVE, inductive), (GC, gc)]"
  from assms obtain cs where
    cs: "collect (map (\<lambda>(name, v). map_sum id (Pair name) (textify v)) ?kvs) = Inr cs"
    and a: "a = \<lparr>columns = cs\<rparr>"
    unfolding Algorithm_init_def Let_def
    by (cases "collect (map (\<lambda>(name, v). map_sum id (Pair name) (textify v)) ?kvs)") auto
  from collect_map_fst [OF cs] a show ?thesis by (simp add: COLUMNS_def)
qed

text \<open>
  Claim C8. On a tree whose text nodes were made by the constructor, \<^verbatim>\<open>find_links\<close> yields
  exactly the sequence of the traversal rule: nothing for \<^verbatim>\<open>None\<close>; for a text node with a
  link the one pair of the declared link and the link with its checking suffix; for a list the
  sequences of its elements one after the other; for a record the sequences of its cell
  values in the order of the dictionary, which for a record made by its constructor is the
  order of the headings. Where the rule names a violation, a value of another shape, the
  generator ends in \<^verbatim>\<open>ValueError\<close>.
\<close>

theorem find_links_follows_rule:
  assumes "kinds_ok e"
  shows "(case spec_links e fmt of
            Some ps \<Rightarrow> find_links e fmt = (ps, None)
          | None \<Rightarrow> (\<exists>ps. find_links e fmt = (ps, Some ValueError)))
       \<and> (\<forall>a. Algorithm_init algorithm heterogeneous directed weighted temporal features nc
                 interpretability_nc lp rl inductive gc = Inr a \<longrightarrow>
               map fst (columns a) = COLUMNS)"
  using find_links_follows [OF assms, of fmt] Algorithm_init_keys
  by (auto simp: follows_def)

theorem find_links_follows_rule_witness:
  "kinds_ok gcn_tree
   \<and> find_links gcn_tree (Rst ''docs/demos/index.rst'' ''--'')
     = ([(Some ''node-classification/gcn-node-classification'',
          ''node-classification/gcn-node-classification.nblink''),
         (Some ''embeddings/deep-graph-infomax-embeddings'',
          ''embeddings/deep-graph-infomax-embeddings.nblink''),
         (Some ''graph-classification'', ''graph-classification/index.rst'')], None)
   \<and> kinds_ok broken_tree
   \<and> (\<exists>ps. find_links broken_tree (Rst ''docs/demos/index.rst'' ''--'') = (ps, Some ValueError))"
proof -
  let ?fmt = "Rst ''docs/demos/index.rst'' ''--''"
  have k1: "kinds_ok gcn_tree"
    by (simp add: gcn_tree_def gcn_record_def GC_def kind_ok_def)
  have k2: "kinds_ok broken_tree"
    by (simp add: broken_tree_def NC_def GC_def kind_ok_def)
  have s1: "spec_links gcn_tree ?fmt
     = Some [(Some ''node-classification/gcn-node-classification'',
          ''node-classification/gcn-node-classification.nblink''),
         (Some ''embeddings/deep-graph-infomax-embeddings'',
          ''embeddings/deep-graph-infomax-embeddings.nblink''),
         (Some ''graph-classification'', ''graph-classification/index.rst'')]"
    by (simp add: gcn_tree_def gcn_record_def GC_def)
  have s2: "spec_links broken_tree ?fmt = None"
    by (simp add: broken_tree_def NC_def GC_def)
  from find_links_follows_rule [OF k1, of ?fmt] s1
  have 1: "find_links gcn_tree ?fmt
     = ([(Some ''node-classification/gcn-node-classification'',
          ''node-classification/gcn-node-classification.nblink''),
         (Some ''embeddings/deep-graph-infomax-embeddings'',
          ''embeddings/deep-graph-infomax-embeddings.nblink''),
         (Some ''graph-classification'', ''graph-classification/index.rst'')], None)"
    by simp
  from find_links_follows_rule [OF k2, of ?fmt] s2
  have 2: "\<exists>ps. find_links broken_tree ?fmt = (ps, Some ValueError)"
    by simp
  from k1 k2 1 2 show ?thesis by blast
qed

section \<open>Properties of rendering\<close>

lemma for_each_preserves:
  assumes "\<And>x s s'. P s \<Longrightarrow> body x s = Inr s' \<Longrightarrow> P s'"
    and "P s" and "for_each xs body s = Inr s'"
  shows "P s'"
  using assms(2,3)
proof (induction xs arbitrary: s)
  case Nil
  then show ?case by simp
next
  case (Cons x xs)
  from Cons.prems(2) obtain s1 where s1: "body x s = Inr s1" "for_each xs body s1 = Inr s'"
    by (auto simp: and_then_def split: sum.splits)
  from assms(1) [OF Cons.prems(1) s1(1)] have "P s1" .
  from Cons.IH [OF this s1(2)] show ?case .
qed

lemma add_first_line:
  assumes "first_line_is m b" and "add b d one_line = Inr b'"
  shows "first_line_is m b'"
proof -
  from assms(1) obtain rest where rest: "html b = m # rest" "rest \<noteq> []"
    and ind: "indent_amount b \<noteq> None"
    by (auto simp: first_line_is_def)
  show ?thesis
  proof (cases one_line)
    case True
    with assms(2) rest have "html b' = m # (butlast rest @ [last rest @ d])"
      and "indent_amount b' = indent_amount b"
      by (auto simp: add_def Let_def split: if_splits)
    with ind show ?thesis by (simp add: first_line_is_def)
  next
    case False
    with assms(2) rest obtain d' where "html b' = m # (rest @ [d'])"
      and "indent_amount b' = indent_amount b"
      by (auto simp: add_def Let_def split: if_splits option.splits)
    with ind show ?thesis by (simp add: first_line_is_def)
  qed
qed

lemma add_opens_first_line:
  assumes "html b = [m]" and "indent_amount b \<noteq> None" and "add b d False = Inr b'"
  shows "first_line_is m b'"
proof -
  from assms obtain d' where "html b' = [m, d']" and "indent_amount b' = indent_amount b"
    by (auto simp: add_def Let_def split: if_splits option.splits)
  with assms(2) show ?thesis by (simp add: first_line_is_def)
qed

lemma first_line_is_indent_level [simp]:
  "first_line_is m (b\<lparr>indent_level := n\<rparr>) = first_line_is m b"
  by (simp add: first_line_is_def)

lemma element_first_line:
  assumes "first_line_is m b"
    and "\<And>b0 b1. first_line_is m b0 \<Longrightarrow> body b0 = Inr b1 \<Longrightarrow> first_line_is m b1"
    and "element b name attrs only_with_attrs body = Inr b'"
  shows "first_line_is m b'"
proof (cases "only_with_attrs \<and> attrs = []")
  case True
  with assms(3) have "body b = Inr b'" by (simp add: element_def)
  from assms(2) [OF assms(1) this] show ?thesis .
next
  case False
  with assms(3) obtain open_tag close_tag b1 b2 one_line where
    1: "add b open_tag False = Inr b1"
    and 2: "body (b1\<lparr>indent_level := indent_level b1 + 1\<rparr>) = Inr b2"
    and 3: "add (b2\<lparr>indent_level := indent_level b2 - 1\<rparr>) close_tag one_line = Inr b'"
    by (auto simp: element_def Let_def and_then_def split: sum.splits if_splits)
  from add_first_line [OF assms(1) 1] have "first_line_is m (b1\<lparr>indent_level := indent_level b1 + 1\<rparr>)"
    by simp
  from assms(2) [OF this 2] have "first_line_is m (b2\<lparr>indent_level := indent_level b2 - 1\<rparr>)"
    by simp
  from add_first_line [OF this 3] show ?thesis .
qed

lemma element_opens_first_line:
  assumes "html b = [m]" and "indent_amount b \<noteq> None"
    and "\<And>b0 b1. first_line_is m b0 \<Longrightarrow> body b0 = Inr b1 \<Longrightarrow> first_line_is m b1"
    and "element b name attrs False body = Inr b'"
  shows "first_line_is m b'"
proof -
  from assms(4) obtain open_tag close_tag b1 b2 one_line where
    1: "add b open_tag False = Inr b1"
    and 2: "body (b1\<lparr>indent_level := indent_level b1 + 1\<rparr>) = Inr b2"
    and 3: "add (b2\<lparr>indent_level := indent_level b2 - 1\<rparr>) close_tag one_line = Inr b'"
    by (auto simp: element_def Let_def and_then_def split: sum.splits if_splits)
  from add_opens_first_line [OF assms(1,2) 1]
  have "first_line_is m (b1\<lparr>indent_level := indent_level b1 + 1\<rparr>)"
    by simp
  from assms(3) [OF this 2] have "first_line_is m (b2\<lparr>indent_level := indent_level b2 - 1\<rparr>)"
    by simp
  from add_first_line [OF this 3] show ?thesis .
qed

lemma Html_render_cell_first_line:
  "first_line_is m b \<Longrightarrow> Html_render_cell self b c one_line = Inr b' \<Longrightarrow> first_line_is m b'"
  "first_line_is m b \<Longrightarrow> Html_render_cells self b cs = Inr b' \<Longrightarrow> first_line_is m b'"
proof (induction self b c one_line and self b cs arbitrary: b' and b'
    rule: Html_render_cell_Html_render_cells.induct)
  case (1 self builder one_line)
  then show ?case by simp
next
  case (2 self builder contents one_line)
  then show ?case by (auto split: if_splits)
next
  case (3 self builder t one_line)
  then show ?case by (auto simp: and_then_def split: sum.splits dest: add_first_line)
next
  case (4 self builder b one_line)
  then show ?case by (auto split: if_splits)
next
  case (5 self builder s one_line)
  then show ?case by (auto split: if_splits)
next
  case (6 self builder)
  then show ?case by simp
next
  case (7 self builder contents rest)
  from "7.prems"(2) obtain b1 where
    b1: "Html_render_cell self builder contents False = Inr b1"
    "Html_render_cells self b1 rest = Inr b'"
    by (auto simp: and_then_def split: sum.splits)
  from "7.IH"(1) [OF "7.prems"(1) b1(1)] have "first_line_is m b1" .
  from "7.IH"(2) [OF this b1(2)] show ?case .
qed

lemma string_first_line:
  assumes "first_line_is m b"
  shows "prefix (m @ ''\<newline>'') (string b)"
proof -
  from assms obtain y ys n where "html b = m # y # ys" and "indent_amount b = Some n"
    by (auto simp: first_line_is_def neq_Nil_conv)
  then show ?thesis by (simp add: string_def)
qed

lemma Html_render_first_line:
  assumes "Html_render self script headings algorithms = Inr out"
  shows "prefix (''<!-- '' @ AUTOGENERATED_PROMPT script @ '' -->'' @ ''\<newline>'') out"
proof -
  let ?m = "''<!-- '' @ AUTOGENERATED_PROMPT script @ '' -->''"
  let ?b0 = "\<lparr>html = [?m], indent_amount = Some 2, indent_level = 0, add_count = 1\<rparr>"
  let ?th = "\<lambda>heading builder.
      element builder ''th'' [] False (\<lambda>builder.
        and_then (Html_render_t self heading) (\<lambda>s. add builder s True))"
  let ?td = "\<lambda>algorithm heading builder.
      element builder ''td'' [] False (\<lambda>builder.
        and_then (dict_get (columns algorithm) heading) (\<lambda>cell.
          Html_render_cell self builder cell True))"
  let ?body = "\<lambda>builder.
      and_then (element builder ''tr'' [] False (for_each headings ?th))
        (for_each algorithms (\<lambda>algorithm builder.
           element builder ''tr'' [] False (for_each headings (?td algorithm))))"
  have start: "add (HtmlBuilder_init (Some 2)) ?m False = Inr ?b0"
    by (simp add: add_def HtmlBuilder_init_def)
  from assms obtain b' where b': "element ?b0 ''table'' [] False ?body = Inr b'"
    and out: "out = string b'"
    unfolding Html_render_def Let_def start
    by (auto simp: and_then_def split: sum.splits)
  have th: "first_line_is ?m b1" if "first_line_is ?m b0" "?th h b0 = Inr b1" for h b0 b1
    using that(1) _ that(2)
    by (rule element_first_line) (auto simp: and_then_def split: sum.splits dest: add_first_line)
  have td: "first_line_is ?m b1" if "first_line_is ?m b0" "?td a h b0 = Inr b1" for a h b0 b1
    using that(1) _ that(2)
    by (rule element_first_line)
       (auto simp: and_then_def split: sum.splits dest: Html_render_cell_first_line(1))
  have head_row: "first_line_is ?m b1"
    if "first_line_is ?m b0" "element b0 ''tr'' [] False (for_each headings ?th) = Inr b1"
    for b0 b1
    using that(1) _ that(2)
  proof (rule element_first_line)
    fix c0 c1
    assume "first_line_is ?m c0" "for_each headings ?th c0 = Inr c1"
    with th show "first_line_is ?m c1" by (rule for_each_preserves)
  qed
  have row: "first_line_is ?m b1"
    if "first_line_is ?m b0"
      "element b0 ''tr'' [] False (for_each headings (?td a)) = Inr b1" for a b0 b1
    using that(1) _ that(2)
  proof (rule element_first_line)
    fix c0 c1
    assume "first_line_is ?m c0" "for_each headings (?td a) c0 = Inr c1"
    with td show "first_line_is ?m c1" by (rule for_each_preserves)
  qed
  have body: "first_line_is ?m b1" if "first_line_is ?m b0" "?body b0 = Inr b1" for b0 b1
  proof -
    from that(2) obtain c where c: "element b0 ''tr'' [] False (for_each headings ?th) = Inr c"
      and rows: "for_each algorithms (\<lambda>algorithm builder.
           element builder ''tr'' [] False (for_each headings (?td algorithm))) c = Inr b1"
      by (auto simp: and_then_def split: sum.splits)
    from head_row [OF that(1) c] have "first_line_is ?m c" .
    with row show ?thesis using rows by (rule for_each_preserves)
  qed
  have "first_line_is ?m b'"
    by (rule element_opens_first_line [of ?b0 ?m ?body, OF _ _ body b']) simp_all
  from string_first_line [OF this] out show ?thesis by simp
qed

lemma str_join_begins:
  "begins_list_table r \<Longrightarrow> prefix ''.. list-table::\<newline>'' (str_join ''\<newline>'' r)"
  by (auto simp: begins_list_table_def)

lemma begins_list_table_append: "begins_list_table r \<Longrightarrow> begins_list_table (r @ xs)"
  by (auto simp: begins_list_table_def)

lemma Rst_render_first_line:
  assumes "Rst_render self headings algorithms = Inr out"
  shows "prefix ''.. list-table::\<newline>'' out"
proof -
  let ?r0 = "[''.. list-table::'', ''   :header-rows: 1'', [], ''   *'']"
  let ?h = "\<lambda>heading result.
      and_then (Rst_render_t self heading) (\<lambda>rst. Inr (result @ [''     -'' @ '' '' @ rst]))"
  let ?c = "\<lambda>algorithm heading result.
      and_then (dict_get (columns algorithm) heading) (\<lambda>cell.
      and_then (Rst_render_cell self cell) (\<lambda>rst.
        if rst \<noteq> [] then Inr (result @ [''     -'' @ '' '' @ rst])
        else Inr (result @ [''     -''])))"
  from assms obtain r1 r2 where r1: "for_each headings ?h ?r0 = Inr r1"
    and r2: "for_each algorithms (\<lambda>algorithm result.
               for_each headings (?c algorithm) (result @ [''   *''])) r1 = Inr r2"
    and out: "out = str_join ''\<newline>'' r2"
    unfolding Rst_render_def Let_def
    by (auto simp: and_then_def split: sum.splits)
  have h: "begins_list_table s'" if "begins_list_table s" "?h x s = Inr s'" for x s s'
    using that by (auto simp: and_then_def begins_list_table_append split: sum.splits)
  have c: "begins_list_table s'" if "begins_list_table s" "?c a x s = Inr s'" for a x s s'
    using that by (auto simp: and_then_def begins_list_table_append split: sum.splits if_splits)
  have "begins_list_table ?r0" by (simp add: begins_list_table_def)
  with h have 1: "begins_list_table r1" using r1 by (rule for_each_preserves)
  have row: "begins_list_table s'"
    if "begins_list_table s" "for_each headings (?c a) (s @ [''   *'']) = Inr s'" for a s s'
  proof -
    from that(1) have "begins_list_table (s @ [''   *''])" by (rule begins_list_table_append)
    with c show ?thesis using that(2) by (rule for_each_preserves)
  qed
  from row 1 r2 have "begins_list_table r2" by (rule for_each_preserves)
  from str_join_begins [OF this] out show ?thesis by simp
qed

text \<open>
  Claim C5, as stated, fails for the structured-text format: on the one heading
  \<^verbatim>\<open>Algorithm\<close> and no record its output is the list-table directive, and the marker occurs
  nowhere in it.
\<close>

theorem rst_render_marker_counterexample:
  "Rst_render (Rst ''docs/demos/index.rst'' ''--'') [ALGORITHM] []
     = Inr ''.. list-table::\<newline>   :header-rows: 1\<newline>\<newline>   *\<newline>     - Algorithm''
   \<and> str_find ''autogenerated''
        ''.. list-table::\<newline>   :header-rows: 1\<newline>\<newline>   *\<newline>     - Algorithm'' = None"
  by (simp add: Rst_render_def Rst_render_t_def Format_link_def ALGORITHM_def and_then_def)

text \<open>
  Claim C5, amended. Whenever the hypertext render returns, its output begins with the
  marker line, the comment that holds \<^verbatim>\<open>AUTOGENERATED_PROMPT\<close>, before the table. Whenever
  the structured-text render returns, its output begins with the line of the list-table
  directive.
\<close>

theorem render_first_line:
  "(Html_render self script headings algorithms = Inr out \<longrightarrow>
      prefix (''<!-- '' @ AUTOGENERATED_PROMPT script @ '' -->'' @ ''\<newline>'') out)
   \<and> (Rst_render self' headings algorithms = Inr out' \<longrightarrow>
      prefix ''.. list-table::\<newline>'' out')"
  using Html_render_first_line Rst_render_first_line by blast

lemma Html_render_one_record:
  "Html_render (Html ''demos/README.md'' ''--'') ''scripts/demo_indexing.py'' [ALGORITHM] [one_record]
   = Inr (''<!-- autogenerated by scripts/demo_indexing.py, edit that file instead of this location -->''
          @ ''\<newline><table>\<newline>  <tr>\<newline>    <th>Algorithm</th>\<newline>  </tr>''
          @ ''\<newline>  <tr>\<newline>    <td>GCN</td>\<newline>  </tr>\<newline></table>'')"
  by code_simp

lemma Rst_render_one_record:
  "Rst_render (Rst ''docs/demos/index.rst'' ''--'') [ALGORITHM] [one_record]
   = Inr (''.. list-table::\<newline>   :header-rows: 1\<newline>\<newline>   *\<newline>     - Algorithm''
          @ ''\<newline>   *\<newline>     - GCN'')"
  by code_simp

theorem render_first_line_witness:
  "Html_render (Html ''demos/README.md'' ''--'') ''scripts/demo_indexing.py'' [ALGORITHM] [one_record]
   = Inr (''<!-- autogenerated by scripts/demo_indexing.py, edit that file instead of this location -->''
          @ ''\<newline><table>\<newline>  <tr>\<newline>    <th>Algorithm</th>\<newline>  </tr>''
          @ ''\<newline>  <tr>\<newline>    <td>GCN</td>\<newline>  </tr>\<newline></table>'')
   \<and> prefix (''<!-- '' @ AUTOGENERATED_PROMPT ''scripts/demo_indexing.py'' @ '' -->'' @ ''\<newline>'')
        (''<!-- autogenerated by scripts/demo_indexing.py, edit that file instead of this location -->''
          @ ''\<newline><table>\<newline>  <tr>\<newline>    <th>Algorithm</th>\<newline>  </tr>''
          @ ''\<newline>  <tr>\<newline>    <td>GCN</td>\<newline>  </tr>\<newline></table>'')
   \<and> Rst_render (Rst ''docs/demos/index.rst'' ''--'') [ALGORITHM] [one_record]
   = Inr (''.. list-table::\<newline>   :header-rows: 1\<newline>\<newline>   *\<newline>     - Algorithm''
          @ ''\<newline>   *\<newline>     - GCN'')
   \<and> prefix ''.. list-table::\<newline>''
        (''.. list-table::\<newline>   :header-rows: 1\<newline>\<newline>   *\<newline>     - Algorithm''
          @ ''\<newline>   *\<newline>     - GCN'')"
  using render_first_line [of "Html ''demos/README.md'' ''--''" "''scripts/demo_indexing.py''"
      "[ALGORITHM]" "[one_record]" _ "Rst ''docs/demos/index.rst'' ''--''"]
    Html_render_one_record Rst_render_one_record
  by blast

end
